theory Spec2Isabelle
  imports Main "HOL-Library.Sublist"
begin

section \<open>Go strings as byte lists\<close>

text \<open>
  A Go string is a sequence of bytes; \<^typ>\<open>string\<close> (a list of 8-bit characters) is
  used for it. The helpers below follow the Go standard library on the byte level.
\<close>

text \<open>
  The UTF-8 encodings of the runes for which \<open>unicode.IsSpace\<close> holds: the six ASCII
  ones, U+0085, U+00A0, U+1680, U+2000..U+200A, U+2028, U+2029, U+202F, U+205F, U+3000.
\<close>

definition space_runes :: "string list" where
  "space_runes =
     [[CHR 0x09], [CHR 0x0A], [CHR 0x0B], [CHR 0x0C], [CHR 0x0D], [CHR 0x20],
      [CHR 0xC2, CHR 0x85], [CHR 0xC2, CHR 0xA0], [CHR 0xE1, CHR 0x9A, CHR 0x80],
      [CHR 0xE2, CHR 0x80, CHR 0x80], [CHR 0xE2, CHR 0x80, CHR 0x81],
      [CHR 0xE2, CHR 0x80, CHR 0x82], [CHR 0xE2, CHR 0x80, CHR 0x83],
      [CHR 0xE2, CHR 0x80, CHR 0x84], [CHR 0xE2, CHR 0x80, CHR 0x85],
      [CHR 0xE2, CHR 0x80, CHR 0x86], [CHR 0xE2, CHR 0x80, CHR 0x87],
      [CHR 0xE2, CHR 0x80, CHR 0x88], [CHR 0xE2, CHR 0x80, CHR 0x89],
      [CHR 0xE2, CHR 0x80, CHR 0x8A], [CHR 0xE2, CHR 0x80, CHR 0xA8],
      [CHR 0xE2, CHR 0x80, CHR 0xA9], [CHR 0xE2, CHR 0x80, CHR 0xAF],
      [CHR 0xE2, CHR 0x81, CHR 0x9F], [CHR 0xE3, CHR 0x80, CHR 0x80]]"

text \<open>Length of the first pattern that is a prefix of the text; 0 when there is none.\<close>

fun rune_width :: "string list \<Rightarrow> string \<Rightarrow> nat" where
  "rune_width [] s = 0"
| "rune_width (p # ps) s = (if p \<noteq> [] \<and> prefix p s then length p else rune_width ps s)"

fun trim_left :: "string list \<Rightarrow> string \<Rightarrow> string" where
  "trim_left ps [] = []"
| "trim_left ps (c # cs) =
     (case rune_width ps (c # cs) of
        0 \<Rightarrow> c # cs
      | Suc n \<Rightarrow> trim_left ps (drop n cs))"

text \<open>
  \<open>strings.TrimSpace\<close>: leading space runes are cut, then trailing ones (the trailing
  ones are read backwards, so both the text and the patterns are reversed).
\<close>

definition TrimSpace :: "string \<Rightarrow> string" where
  "TrimSpace s = rev (trim_left (map rev space_runes) (rev (trim_left space_runes s)))"

definition uppers :: string where
  "uppers = ''ABCDEFGHIJKLMNOPQRSTUVWXYZ''"

definition lowers :: string where
  "lowers = ''abcdefghijklmnopqrstuvwxyz''"

definition digits :: string where
  "digits = ''0123456789''"

definition lower_char :: "char \<Rightarrow> char" where
  "lower_char c = (case map_of (zip uppers lowers) c of Some d \<Rightarrow> d | None \<Rightarrow> c)"

text \<open>
  \<open>strings.ToLower\<close>. ASCII capitals are lowered; the two other runes whose lower case
  is an ASCII letter are U+0130 (to \<open>i\<close>) and U+212A (to \<open>k\<close>). Bytes of every other
  rune are kept: Go maps such a rune to a rune outside ASCII, and the callers below only
  compare the result with ASCII literals.
\<close>

fun ToLower :: "string \<Rightarrow> string" where
  "ToLower [] = []"
| "ToLower (c # cs) =
     (if prefix [CHR 0xC4, CHR 0xB0] (c # cs) then CHR ''i'' # ToLower (drop 1 cs)
      else if prefix [CHR 0xE2, CHR 0x84, CHR 0xAA] (c # cs) then CHR ''k'' # ToLower (drop 2 cs)
      else lower_char c # ToLower cs)"

text \<open>\<open>strings.Contains\<close>: the second string occurs as a contiguous run of the first.\<close>

fun Contains :: "string \<Rightarrow> string \<Rightarrow> bool" where
  "Contains [] sub = (sub = [])"
| "Contains (c # cs) sub = (prefix sub (c # cs) \<or> Contains cs sub)"

text \<open>\<open>filepath.ToSlash\<close> on a system whose separator is the slash: the identity.\<close>

definition ToSlash :: "string \<Rightarrow> string" where
  "ToSlash p = p"

section \<open>Patch planner\<close>

record Finding =
  Tool :: string
  Title :: string
  FilePath :: string
  LineStart :: int

text \<open>\<open>FixActionType\<close> is a string type with two named constants.\<close>

type_synonym FixActionType = string

definition FixSecretRedaction :: FixActionType where
  "FixSecretRedaction = ''secret_redaction''"

definition FixGitIgnoreEnv :: FixActionType where
  "FixGitIgnoreEnv = ''gitignore_env''"

record FixAction =
  Type :: FixActionType
  ActFilePath :: string
  ActLineStart :: int
  Description :: string

record ManualItem =
  Reason :: string
  MTitle :: string
  File :: string

record Plan =
  Actions :: "FixAction list"
  Manual :: "ManualItem list"

definition secretAction :: "string \<Rightarrow> int \<Rightarrow> FixAction" where
  "secretAction filePath line =
     \<lparr>Type = FixSecretRedaction, ActFilePath = filePath, ActLineStart = line,
      Description = ''Replace hardcoded credential-like value with environment placeholder''\<rparr>"

definition gitignoreAction :: FixAction where
  "gitignoreAction =
     \<lparr>Type = FixGitIgnoreEnv, ActFilePath = ''.gitignore'', ActLineStart = 0,
      Description = ''Ensure .env is ignored''\<rparr>"

definition manualOf :: "Finding \<Rightarrow> ManualItem" where
  "manualOf f =
     \<lparr>Reason = ''manual fix required: ambiguous or potentially unsafe automatic change'',
      MTitle = Title f, File = FilePath f\<rparr>"

text \<open>The test of line 59 of the planner.\<close>

definition isSecretFinding :: "Finding \<Rightarrow> bool" where
  "isSecretFinding f \<longleftrightarrow>
     (ToLower (TrimSpace (Tool f)) = ''gitleaks''
        \<or> Contains (ToLower (TrimSpace (Title f))) ''secret'')
     \<and> ToSlash (TrimSpace (FilePath f)) \<noteq> []"

text \<open>
  The loop over the findings. The state of the loop is the plan built so far and the flag
  \<open>seenGitignore\<close>; \<open>break\<close> returns the state as it is.
\<close>

fun planLoop :: "int \<Rightarrow> Finding list \<Rightarrow> Plan \<Rightarrow> bool \<Rightarrow> Plan \<times> bool" where
  "planLoop maxFixes [] plan seen = (plan, seen)"
| "planLoop maxFixes (f # fs) plan seen =
     (if int (length (Actions plan)) \<ge> maxFixes then (plan, seen)
      else if isSecretFinding f then
        planLoop maxFixes fs
          (plan\<lparr>Actions := Actions plan @ [secretAction (ToSlash (TrimSpace (FilePath f))) (LineStart f)]\<rparr>)
          seen
      else if \<not> seen then
        planLoop maxFixes fs (plan\<lparr>Actions := Actions plan @ [gitignoreAction]\<rparr>) True
      else
        planLoop maxFixes fs (plan\<lparr>Manual := Manual plan @ [manualOf f]\<rparr>) seen)"

definition effectiveCap :: "int \<Rightarrow> int" where
  "effectiveCap maxFixes = (if maxFixes \<le> 0 then 10 else maxFixes)"

definition BuildPlan :: "Finding list \<Rightarrow> int \<Rightarrow> Plan" where
  "BuildPlan findings maxFixes =
     (let m = effectiveCap maxFixes;
          (plan, seen) = planLoop m findings \<lparr>Actions = [], Manual = []\<rparr> False
      in if \<not> seen \<and> int (length (Actions plan)) < m
         then plan\<lparr>Actions := Actions plan @ [gitignoreAction]\<rparr>
         else plan)"

definition countGitIgnore :: "FixAction list \<Rightarrow> nat" where
  "countGitIgnore as = length (filter (\<lambda>a. Type a = FixGitIgnoreEnv) as)"

section \<open>Patch applier\<close>

subsection \<open>Lines and paths\<close>

abbreviation LF :: char where
  "LF \<equiv> CHR 0x0A"

abbreviation CR :: char where
  "CR \<equiv> CHR 0x0D"

text \<open>\<open>strings.Split\<close> at a one-byte separator; the empty string gives one empty piece.\<close>

fun Split :: "char \<Rightarrow> string \<Rightarrow> string list" where
  "Split sep [] = [[]]"
| "Split sep (c # cs) =
     (if c = sep then [] # Split sep cs
      else (case Split sep cs of
              [] \<Rightarrow> [[c]]
            | l # ls \<Rightarrow> (c # l) # ls))"

text \<open>\<open>strings.Join\<close> with a one-byte separator.\<close>

fun Join :: "char \<Rightarrow> string list \<Rightarrow> string" where
  "Join sep [] = []"
| "Join sep [l] = l"
| "Join sep (l # m # ls) = l @ sep # Join sep (m # ls)"

text \<open>
  \<open>strings.ReplaceAll(s, "\r\n", "\n")\<close>: the occurrences are replaced from left to right
  and do not overlap.
\<close>

fun ReplaceAll_CRLF :: "string \<Rightarrow> string" where
  "ReplaceAll_CRLF (c # d # cs) =
     (if c = CR \<and> d = LF then LF # ReplaceAll_CRLF cs else c # ReplaceAll_CRLF (d # cs))"
| "ReplaceAll_CRLF cs = cs"

definition fileLines :: "string \<Rightarrow> string list" where
  "fileLines s = Split LF (ReplaceAll_CRLF s)"

text \<open>
  \<open>filepath.Clean\<close> where the separator is the slash. The elements of the path are
  processed from left to right: empty elements and \<open>.\<close> are dropped; \<open>..\<close> removes the
  element before it when that is a real element, is dropped at the root of a rooted
  path, and is kept otherwise.
\<close>

definition cleanStep :: "bool \<Rightarrow> string list \<Rightarrow> string \<Rightarrow> string list" where
  "cleanStep rooted st e =
     (if e = [] \<or> e = ''.'' then st
      else if e = ''..'' then
        (if st \<noteq> [] \<and> last st \<noteq> ''..'' then butlast st
         else if \<not> rooted then st @ [''..'']
         else st)
      else st @ [e])"

definition Clean :: "string \<Rightarrow> string" where
  "Clean path =
     (if path = [] then ''.''
      else
        let rooted = (hd path = CHR ''/'');
            out = (if rooted then ''/'' else []) @
                  Join (CHR ''/'') (foldl (cleanStep rooted) [] (Split (CHR ''/'') path))
        in if out = [] then ''.'' else out)"

text \<open>\<open>filepath.Join\<close> of two elements.\<close>

definition Join2 :: "string \<Rightarrow> string \<Rightarrow> string" where
  "Join2 a b =
     (if a \<noteq> [] then Clean (a @ CHR ''/'' # b)
      else if b \<noteq> [] then Clean b
      else [])"

subsection \<open>The redaction pattern\<close>

text \<open>
  The pattern of \<open>secretAssignPattern\<close> is
  \<^verbatim>\<open>(?i)^([ \t]*[A-Z0-9_\-\.]*?(token|secret|password|apikey|api_key)[A-Z0-9_\-\.]*\<close>
  \<^verbatim>\<open>(?:[ \t]*[:=][ \t]*|[ \t]+))("[^"]*"|'[^']*'|[A-Za-z0-9_\-]{12,})(.*)$\<close>.
  It is anchored at both ends, so a line matches in at most one way as far as the
  groups 1, 3 and 4 are concerned:
  \<^item> the leading blanks are all the blanks at the start of the line, since the name
    cannot start with a blank;
  \<^item> the name is the longest run of name runes, since the separator that has to follow
    starts with a blank, a colon or an equals sign, none of which is a name rune; the
    run has to contain one of the five keywords;
  \<^item> the separator is all the blanks after the name, with one colon or equals sign
    and the blanks after it if there is one, since the value cannot start with a
    blank, a colon or an equals sign; it is not empty;
  \<^item> the value is decided by its first byte: a double-quoted or single-quoted text up
    to the next quote of its kind, or the longest run of value runes, of 12 runes or more;
  \<^item> \<open>(.*)$\<close> takes what is left, a line holding no line feed.

  Under \<open>(?i)\<close> a letter of the pattern also matches the other members of its case
  orbit: besides the ASCII letter of the other case these are U+017F for \<open>s\<close> and
  U+212A for \<open>k\<close>, in classes as well as in the keywords. A rune of a class is
  therefore one ASCII byte of the class, or the bytes \<open>C5 BF\<close>, or the bytes
  \<open>E2 84 AA\<close>; \<open>classRune\<close> gives the rune folded to lower case and its width.
\<close>

definition nameChars :: string where
  "nameChars = uppers @ lowers @ digits @ ''_-.''"

definition valueChars :: string where
  "valueChars = uppers @ lowers @ digits @ ''_-''"

definition classRune :: "string \<Rightarrow> string \<Rightarrow> (char \<times> nat) option" where
  "classRune cls s =
     (case s of
        [] \<Rightarrow> None
      | c # cs \<Rightarrow>
          if c \<in> set cls then Some (lower_char c, 1)
          else if prefix [CHR 0xC5, CHR 0xBF] s then Some (CHR ''s'', 2)
          else if prefix [CHR 0xE2, CHR 0x84, CHR 0xAA] s then Some (CHR ''k'', 3)
          else None)"

text \<open>The longest run of runes of a class: the run folded to lower case, and the rest.\<close>

fun classRun :: "string \<Rightarrow> string \<Rightarrow> string \<times> string" where
  "classRun cls [] = ([], [])"
| "classRun cls (c # cs) =
     (case classRune cls (c # cs) of
        None \<Rightarrow> ([], c # cs)
      | Some (d, w) \<Rightarrow>
          (case classRun cls (drop (w - 1) cs) of (r, rest) \<Rightarrow> (d # r, rest)))"

definition isBlank :: "char \<Rightarrow> bool" where
  "isBlank c \<longleftrightarrow> c = CHR '' '' \<or> c = CHR 0x09"

definition skipBlank :: "string \<Rightarrow> string" where
  "skipBlank s = dropWhile isBlank s"

definition keywordList :: "string list" where
  "keywordList = [''token'', ''secret'', ''password'', ''apikey'', ''api_key'']"

definition hasKeyword :: "string \<Rightarrow> bool" where
  "hasKeyword name = list_ex (Contains name) keywordList"

text \<open>The text after the separator, when there is a separator at the start.\<close>

definition afterSeparator :: "string \<Rightarrow> string option" where
  "afterSeparator s =
     (let t = skipBlank s in
      case t of
        [] \<Rightarrow> (if t \<noteq> s then Some t else None)
      | c # cs \<Rightarrow>
          if c = CHR '':'' \<or> c = CHR ''='' then Some (skipBlank cs)
          else if t \<noteq> s then Some t
          else None)"

text \<open>The text after the value (group 4), when there is a value at the start.\<close>

definition afterQuoted :: "char \<Rightarrow> string \<Rightarrow> string option" where
  "afterQuoted q s =
     (if q \<in> set s then Some (tl (dropWhile (\<lambda>c. c \<noteq> q) s)) else None)"

definition afterValue :: "string \<Rightarrow> string option" where
  "afterValue s =
     (case s of
        [] \<Rightarrow> None
      | c # cs \<Rightarrow>
          if c = CHR 0x22 then afterQuoted (CHR 0x22) cs
          else if c = CHR 0x27 then afterQuoted (CHR 0x27) cs
          else (case classRun valueChars s of
                  (v, rest) \<Rightarrow> if 12 \<le> length v then Some rest else None))"

definition placeholder :: string where
  "placeholder = [CHR 0x22] @ ''${SECRET_FROM_ENV}'' @ [CHR 0x22]"

text \<open>
  \<open>redactLine\<close>: \<open>None\<close> is the result \<open>("", false)\<close>. Group 1 is the line up to the
  value.
\<close>

definition redactLine :: "string \<Rightarrow> string option" where
  "redactLine line =
     (case classRun nameChars (skipBlank line) of
        (name, rest) \<Rightarrow>
          if \<not> hasKeyword name then None
          else (case afterSeparator rest of
                  None \<Rightarrow> None
                | Some val \<Rightarrow>
                    (case afterValue val of
                       None \<Rightarrow> None
                     | Some m4 \<Rightarrow>
                         Some (take (length line - length val) line @ placeholder @ m4))))"

subsection \<open>The working copy\<close>

text \<open>
  The files the applier reads and writes, by path. A path holds a regular file with its
  content, or nothing, or an object that cannot be read as a file (a directory, a file
  without permission): \<open>Faulty\<close>. Writing can fail on its own (a read-only file, a
  missing parent directory): \<open>unwritable\<close>. Symbolic and hard links are not modelled:
  two different cleaned paths are two different files.
\<close>

datatype fnode = Absent | File string | Faulty

record filesys =
  node :: "string \<Rightarrow> fnode"
  unwritable :: "string \<Rightarrow> bool"

datatype error = ErrNotExist | ErrIO | Err string

definition ReadFile :: "filesys \<Rightarrow> string \<Rightarrow> error + string" where
  "ReadFile fs path =
     (case node fs path of
        Absent \<Rightarrow> Inl ErrNotExist
      | File s \<Rightarrow> Inr s
      | Faulty \<Rightarrow> Inl ErrIO)"

definition WriteFile :: "filesys \<Rightarrow> string \<Rightarrow> string \<Rightarrow> error + filesys" where
  "WriteFile fs path s =
     (if unwritable fs path \<or> node fs path = Faulty then Inl ErrIO
      else Inr (fs\<lparr>node := (node fs)(path := File s)\<rparr>))"

subsection \<open>The two fixes\<close>

definition HasSuffix :: "string \<Rightarrow> string \<Rightarrow> bool" where
  "HasSuffix s suf = suffix suf s"

text \<open>
  \<open>ensureEnvIgnored\<close>. The Go function returns \<open>(true, err)\<close> when the write fails; its
  caller looks at the error first, so the error alone is the result here.
\<close>

definition envIgnored :: "string \<Rightarrow> bool" where
  "envIgnored s = list_ex (\<lambda>l. TrimSpace l = ''.env'') (fileLines s)"

definition withEnvLine :: "string \<Rightarrow> string" where
  "withEnvLine s =
     (if s \<noteq> [] \<and> \<not> HasSuffix s [LF] then s @ [LF] else s) @ ''.env'' @ [LF]"

definition ensureEnvIgnored :: "filesys \<Rightarrow> string \<Rightarrow> error + (bool \<times> filesys)" where
  "ensureEnvIgnored fs path =
     (case (case ReadFile fs path of
              Inr b \<Rightarrow> Inr b
            | Inl e \<Rightarrow> if e = ErrNotExist then Inr [] else Inl e) of
        Inl e \<Rightarrow> Inl e
      | Inr s \<Rightarrow>
          if envIgnored s then Inr (False, fs)
          else (case WriteFile fs path (withEnvLine s) of
                  Inl e \<Rightarrow> Inl e
                | Inr fs' \<Rightarrow> Inr (True, fs')))"

text \<open>The first line that the pattern matches, with its index and its replacement.\<close>

fun firstMatch :: "string list \<Rightarrow> (nat \<times> string) option" where
  "firstMatch [] = None"
| "firstMatch (l # ls) =
     (case redactLine l of
        Some r \<Rightarrow> Some (0, r)
      | None \<Rightarrow> (case firstMatch ls of None \<Rightarrow> None | Some (i, r) \<Rightarrow> Some (Suc i, r)))"

text \<open>The line that \<open>redactSecretLine\<close> rewrites: the declared one first, then the scan.\<close>

definition chooseLine :: "int \<Rightarrow> string list \<Rightarrow> (nat \<times> string) option" where
  "chooseLine lineStart lines =
     (if 0 < lineStart \<and> lineStart \<le> int (length lines) then
        (case redactLine (lines ! nat (lineStart - 1)) of
           Some r \<Rightarrow> Some (nat (lineStart - 1), r)
         | None \<Rightarrow> firstMatch lines)
      else firstMatch lines)"

definition redactSecretLine :: "filesys \<Rightarrow> string \<Rightarrow> int \<Rightarrow> error + (bool \<times> filesys)" where
  "redactSecretLine fs path lineStart =
     (case ReadFile fs path of
        Inl e \<Rightarrow> if e = ErrNotExist then Inr (False, fs) else Inl e
      | Inr b \<Rightarrow>
          (case chooseLine lineStart (fileLines b) of
             None \<Rightarrow> Inr (False, fs)
           | Some (i, r) \<Rightarrow>
               (case WriteFile fs path (Join LF ((fileLines b)[i := r])) of
                  Inl e \<Rightarrow> Inl e
                | Inr fs' \<Rightarrow> Inr (True, fs'))))"

subsection \<open>\<open>ApplyPlan\<close>\<close>

record ApplyResult =
  Applied :: "FixAction list"
  ResManual :: "ManualItem list"

definition manualFor :: "string \<Rightarrow> FixAction \<Rightarrow> ManualItem" where
  "manualFor reason action =
     \<lparr>Reason = reason, MTitle = Description action, File = ActFilePath action\<rparr>"

text \<open>The check of line 121: the target is neither the root nor below it.\<close>

definition escapesRoot :: "string \<Rightarrow> string \<Rightarrow> bool" where
  "escapesRoot root target \<longleftrightarrow> \<not> prefix (root @ ''/'') target \<and> target \<noteq> root"

text \<open>
  One turn of the loop of \<open>ApplyPlan\<close>: the result so far and the working copy, after
  the action; or the error with which \<open>ApplyPlan\<close> returns.
\<close>

definition applyAction ::
  "string \<Rightarrow> FixAction \<Rightarrow> ApplyResult \<times> filesys \<Rightarrow> error + (ApplyResult \<times> filesys)" where
  "applyAction root action st =
     (case st of (result, fs) \<Rightarrow>
      if Type action = FixGitIgnoreEnv then
        (case ensureEnvIgnored fs (Join2 root ''.gitignore'') of
           Inl e \<Rightarrow> Inl e
         | Inr (applied, fs') \<Rightarrow>
             Inr (if applied then result\<lparr>Applied := Applied result @ [action]\<rparr> else result, fs'))
      else if Type action = FixSecretRedaction then
        (let rel = Clean (ActFilePath action);
             target = Join2 root rel
         in if escapesRoot root target then
              Inr (result\<lparr>ResManual := ResManual result @
                     [manualFor ''manual fix required: invalid target path'' action]\<rparr>, fs)
            else
              (case redactSecretLine fs target (ActLineStart action) of
                 Inl e \<Rightarrow> Inl e
               | Inr (applied, fs') \<Rightarrow>
                   Inr (if applied then result\<lparr>Applied := Applied result @ [action]\<rparr>
                        else result\<lparr>ResManual := ResManual result @
                               [manualFor ''manual fix required: no safe redaction match found''
                                  action]\<rparr>,
                        fs')))
      else
        Inr (result\<lparr>ResManual := ResManual result @
               [manualFor ''manual fix required: unsupported action'' action]\<rparr>, fs))"

text \<open>
  The loop. On an error \<open>ApplyPlan\<close> returns the result built so far together with the
  error; the writes made before stay in the working copy.
\<close>

fun applyLoop ::
  "string \<Rightarrow> FixAction list \<Rightarrow> ApplyResult \<times> filesys \<Rightarrow> error option \<times> ApplyResult \<times> filesys" where
  "applyLoop root [] st = (None, st)"
| "applyLoop root (a # as) st =
     (case applyAction root a st of
        Inl e \<Rightarrow> (Some e, st)
      | Inr st' \<Rightarrow> applyLoop root as st')"

definition ApplyPlan ::
  "string \<Rightarrow> Plan \<Rightarrow> filesys \<Rightarrow> error option \<times> ApplyResult \<times> filesys" where
  "ApplyPlan repoDir plan fs =
     applyLoop (Clean repoDir) (Actions plan) (\<lparr>Applied = [], ResManual = Manual plan\<rparr>, fs)"

subsection \<open>Example data\<close>

definition exampleSecretLine :: string where
  "exampleSecretLine = ''API_TOKEN='' @ [CHR 0x27] @ ''supersecretvalue'' @ [CHR 0x27]"

definition redactedLine :: string where
  "redactedLine = ''API_TOKEN='' @ placeholder"

text \<open>A working copy that holds one writable file.\<close>

definition oneFile :: "string \<Rightarrow> string \<Rightarrow> filesys" where
  "oneFile p s = \<lparr>node = (\<lambda>_. Absent)(p := File s), unwritable = (\<lambda>_. False)\<rparr>"

definition crlfFile :: string where
  "crlfFile = ''keep'' @ [CR, LF] @ exampleSecretLine @ [CR, LF] @ ''last''"

text \<open>The flag \<open>seenGitignore\<close> tells how many GitIgnoreEnv actions the plan holds.\<close>

definition gitignoreInv :: "Plan \<Rightarrow> bool \<Rightarrow> bool" where
  "gitignoreInv plan seen \<longleftrightarrow> countGitIgnore (Actions plan) = (if seen then 1 else 0)"

definition secretFinding1 :: Finding where
  "secretFinding1 =
     \<lparr>Tool = ''gitleaks'', Title = ''Secret detected'', FilePath = ''app.env'', LineStart = 1\<rparr>"

definition otherFinding1 :: Finding where
  "otherFinding1 =
     \<lparr>Tool = ''semgrep'', Title = ''Potential SQL injection'', FilePath = ''app/main.go'',
      LineStart = 44\<rparr>"


subsection \<open>Paths inside the root\<close>

text \<open>
  Where a cleaned path lies relative to a cleaned root, by their elements: the path is
  in the root when its elements are those of the root followed by elements none of
  which is \<open>..\<close>, and both are rooted or both are not. The element \<open>.\<close> only occurs as the
  path \<open>.\<close> itself and stands for no element.
\<close>

definition rooted :: "string \<Rightarrow> bool" where
  "rooted p \<longleftrightarrow> p \<noteq> [] \<and> hd p = CHR ''/''"

definition elems :: "string \<Rightarrow> string list" where
  "elems p = filter (\<lambda>e. e \<noteq> [] \<and> e \<noteq> ''.'') (Split (CHR ''/'') p)"

definition inside :: "string \<Rightarrow> string \<Rightarrow> bool" where
  "inside root p \<longleftrightarrow>
     prefix (elems root) (elems p) \<and>
     ''..'' \<notin> set (drop (length (elems root)) (elems p)) \<and>
     rooted p = rooted root"

text \<open>The root ends in a real element: it is not \<open>/\<close>, \<open>.\<close> or a chain of \<open>..\<close>.\<close>

definition realRoot :: "string \<Rightarrow> bool" where
  "realRoot root \<longleftrightarrow> elems root \<noteq> [] \<and> last (elems root) \<noteq> ''..''"








section \<open>Provider authenticator\<close>

text \<open>\<open>%d\<close> of \<open>fmt.Sprintf\<close>: the decimal digits of an integer.\<close>

definition digitChar :: "nat \<Rightarrow> char" where
  "digitChar d = digits ! d"

function showNat :: "nat \<Rightarrow> string" where
  "showNat n = (if n < 10 then [digitChar n] else showNat (n div 10) @ [digitChar (n mod 10)])"
  by pat_completeness auto
termination
  by (relation "measure id") auto

declare showNat.simps [simp del]

definition showInt :: "int \<Rightarrow> string" where
  "showInt i = (if i < 0 then CHR ''-'' # showNat (nat (- i)) else showNat (nat i))"

text \<open>
  \<open>InstallationToken\<close> talks to the provider. What the outside world answers is given:
  the result of \<open>appJWT\<close> (key parsing and signing), of \<open>http.NewRequest\<close>, of
  \<open>httpClient.Do\<close> (the status code and the body that \<open>io.ReadAll\<close> returns), and what
  \<open>json.Unmarshal\<close> makes of a body: an error, or the value of its field \<open>token\<close>, which
  is empty when the body has no such field.
\<close>

record HTTPResponse =
  StatusCode :: int
  Body :: string

record TokenExchange =
  jwtResult :: "error + string"
  requestError :: "error option"
  doResult :: "error + HTTPResponse"
  unmarshalToken :: "string \<Rightarrow> error + string"

definition InstallationToken :: "TokenExchange \<Rightarrow> error + string" where
  "InstallationToken x =
     (case jwtResult x of
        Inl e \<Rightarrow> Inl e
      | Inr jwtToken \<Rightarrow>
          (case requestError x of
             Some e \<Rightarrow> Inl e
           | None \<Rightarrow>
               (case doResult x of
                  Inl e \<Rightarrow> Inl e
                | Inr resp \<Rightarrow>
                    if StatusCode resp \<ge> 300 then
                      Inl (Err (''token exchange failed: status='' @ showInt (StatusCode resp)))
                    else
                      (case unmarshalToken x (Body resp) of
                         Inl e \<Rightarrow> Inl e
                       | Inr token \<Rightarrow>
                           if token = [] then Inl (Err ''empty installation token'')
                           else Inr token))))"

text \<open>An exchange in which the provider answers with a status and a token.\<close>

definition exchangeWith :: "int \<Rightarrow> string \<Rightarrow> TokenExchange" where
  "exchangeWith status tok =
     \<lparr>jwtResult = Inr ''h.p.s'', requestError = None,
      doResult = Inr \<lparr>StatusCode = status, Body = ''body''\<rparr>,
      unmarshalToken = (\<lambda>b. if b = ''body'' then Inr tok else Inl (Err ''unexpected end of JSON input''))\<rparr>"

section \<open>Remediation orchestrator\<close>

text \<open>
  \<open>Service.Create\<close> works on the database, on a temporary directory, on git and on the
  provider. Each of these is given by its answers; what \<open>Create\<close> does to them is
  logged as a list of effects, and the rows it inserts into table \<open>prs\<close> are kept.
\<close>

record Request =
  RepoID :: string
  ReqTitle :: string
  BaseBranch :: string
  Confirm :: bool
  MaxFixes :: int
  RequestedBy :: string

record Response =
  Mode :: string
  Diff :: string
  PRURL :: string
  Branch :: string

text \<open>A row of table \<open>prs\<close>; \<open>None\<close> is SQL \<open>NULL\<close>.\<close>

record PRRow =
  rowRepoID :: string
  rowStatus :: string
  rowBranch :: "string option"
  rowPRURL :: "string option"
  rowDiffText :: string

text \<open>
  What \<open>Create\<close> does to the world outside, in the order in which it does it. The
  second group are the uses of the provider and of its credentials.
\<close>

datatype effect =
    QueryRepo string
  | QueryFindings string int
  | MkdirAll
  | RemoveAll
  | GitClone string
  | InsertPR PRRow
  | ReadEnv string
  | ExchangeToken
  | GetRepo string string
  | GetRef string string string
  | CreateRef string string string string
  | CommitAndPush string string
  | OpenPR string string string string

fun providerEffect :: "effect \<Rightarrow> bool" where
  "providerEffect (ReadEnv v) = True"
| "providerEffect ExchangeToken = True"
| "providerEffect (GetRepo owner repo) = True"
| "providerEffect (GetRef owner repo branch) = True"
| "providerEffect (CreateRef owner repo ref sha) = True"
| "providerEffect (CommitAndPush branch token) = True"
| "providerEffect (OpenPR title head base body) = True"
| "providerEffect e = False"

text \<open>The state \<open>Create\<close> changes: the rows of table \<open>prs\<close>, and the log of its effects.\<close>

record sysstate =
  prs :: "PRRow list"
  trace :: "effect list"

text \<open>
  The answers of the database, the file system and git (\<open>Local\<close>), and of the
  environment and the provider (\<open>Provider\<close>).
\<close>

record Local =
  repoURL :: "string \<Rightarrow> string option"
  findingsRows :: "string \<Rightarrow> Finding list"
  findingsError :: "error option"
  mkdirError :: "error option"
  cloneDir :: string
  cloneResult :: "error + filesys"
  repoBytes :: int
  gitDiff :: "filesys \<Rightarrow> error + string"
  insertError :: "error option"

record Provider =
  getenv :: "string \<Rightarrow> string"
  exchange :: TokenExchange
  defaultBranch :: "error + string"
  branchSHA :: "error + string"
  createRefError :: "error option"
  pushError :: "error option"
  marshalManual :: "ManualItem list \<Rightarrow> string"
  createPR :: "error + string"
  nowUnix :: int

type_synonym 'a io = "sysstate \<Rightarrow> (error + 'a) \<times> sysstate"

definition ret :: "'a \<Rightarrow> 'a io" where
  "ret x = (\<lambda>s. (Inr x, s))"

definition fail :: "error \<Rightarrow> 'a io" where
  "fail e = (\<lambda>s. (Inl e, s))"

definition lift :: "error + 'a \<Rightarrow> 'a io" where
  "lift r = (\<lambda>s. (r, s))"

definition check :: "error option \<Rightarrow> unit io" where
  "check r = (\<lambda>s. (case r of None \<Rightarrow> Inr () | Some e \<Rightarrow> Inl e, s))"

definition emit :: "effect \<Rightarrow> unit io" where
  "emit ev = (\<lambda>s. (Inr (), s\<lparr>trace := trace s @ [ev]\<rparr>))"

definition bind :: "'a io \<Rightarrow> ('a \<Rightarrow> 'b io) \<Rightarrow> 'b io" where
  "bind m f = (\<lambda>s. case m s of (Inl e, s') \<Rightarrow> (Inl e, s') | (Inr x, s') \<Rightarrow> f x s')"

text \<open>\<open>defer\<close>: the effect happens when the body is left, with a result or an error.\<close>

definition deferred :: "effect \<Rightarrow> 'a io \<Rightarrow> 'a io" where
  "deferred ev m = (\<lambda>s. case m s of (r, s') \<Rightarrow> (r, s'\<lparr>trace := trace s' @ [ev]\<rparr>))"

definition loadFindings :: "Local \<Rightarrow> string \<Rightarrow> int \<Rightarrow> Finding list io" where
  "loadFindings l repoID max0 =
     (let max = (if max0 \<le> 0 then 10 else max0) in
      bind (emit (QueryFindings repoID max)) (\<lambda>_.
      bind (check (findingsError l)) (\<lambda>_.
        let out = take (nat max) (findingsRows l repoID) in
        ret (if out = [] then
               [\<lparr>Tool = ''policy'', Title = ''Ensure .env ignored'', FilePath = ''.gitignore'',
                 LineStart = 0\<rparr>]
             else out))))"

definition nullIfEmpty :: "string \<Rightarrow> string option" where
  "nullIfEmpty v = (if TrimSpace v = [] then None else Some v)"

definition recordPR :: "Local \<Rightarrow> Request \<Rightarrow> string \<Rightarrow> string \<Rightarrow> string \<Rightarrow> string \<Rightarrow> unit io" where
  "recordPR l req status branch prURL diffText =
     (let row = \<lparr>rowRepoID = RepoID req, rowStatus = status, rowBranch = nullIfEmpty branch,
                 rowPRURL = nullIfEmpty prURL, rowDiffText = diffText\<rparr> in
      bind (emit (InsertPR row)) (\<lambda>_.
        (\<lambda>s. case insertError l of
                Some e \<Rightarrow> (Inl e, s)
              | None \<Rightarrow> (Inr (), s\<lparr>prs := prs s @ [row]\<rparr>))))"

definition enforceSizeCap :: "Local \<Rightarrow> int \<Rightarrow> unit io" where
  "enforceSizeCap l maxMB =
     (if repoBytes l > maxMB * 1024 * 1024 then fail (Err ''repo exceeds size cap'') else ret ())"

text \<open>\<open>GenerateDryRunDiff\<close> on the working copy; the working copy after it is returned too.\<close>

definition GenerateDryRunDiff ::
  "Local \<Rightarrow> filesys \<Rightarrow> Finding list \<Rightarrow> int \<Rightarrow> (string \<times> Plan \<times> ApplyResult \<times> filesys) io" where
  "GenerateDryRunDiff l fs findings maxFixes =
     (let plan = BuildPlan findings maxFixes in
      case ApplyPlan (cloneDir l) plan fs of
        (Some e, applied, fs') \<Rightarrow> fail e
      | (None, applied, fs') \<Rightarrow>
          bind (lift (gitDiff l fs')) (\<lambda>d. ret (d, plan, applied, fs')))"

definition sentinelDiff :: string where
  "sentinelDiff = ''# No safe automatic changes available'' @ [LF]"

subsection \<open>The confirmed path\<close>

definition digitVal :: "char \<Rightarrow> nat" where
  "digitVal c = length (takeWhile (\<lambda>d. d \<noteq> c) digits)"

definition natOfDigits :: "string \<Rightarrow> nat" where
  "natOfDigits ds = foldl (\<lambda>a c. 10 * a + digitVal c) 0 ds"

text \<open>\<open>strconv.ParseInt(s, 10, 64)\<close> returns no error.\<close>

definition parsesInt64 :: "string \<Rightarrow> bool" where
  "parsesInt64 s =
     (case (case s of
              [] \<Rightarrow> (False, [])
            | c # cs \<Rightarrow> if c = CHR ''+'' then (False, cs)
                        else if c = CHR ''-'' then (True, cs)
                        else (False, s)) of
        (neg, ds) \<Rightarrow>
          ds \<noteq> [] \<and> list_all (\<lambda>c. c \<in> set digits) ds \<and>
          (if neg then natOfDigits ds \<le> 2 ^ 63 else natOfDigits ds < 2 ^ 63))"

definition ValidateGitHubAppIDs :: "string \<Rightarrow> string \<Rightarrow> error option" where
  "ValidateGitHubAppIDs appID installationID =
     (if \<not> parsesInt64 appID then Some (Err ''GITHUB_APP_ID must be numeric'')
      else if \<not> parsesInt64 installationID then Some (Err ''GITHUB_INSTALLATION_ID must be numeric'')
      else None)"

definition TrimPrefix :: "string \<Rightarrow> string \<Rightarrow> string" where
  "TrimPrefix s p = (if prefix p s then drop (length p) s else s)"

definition TrimSuffix :: "string \<Rightarrow> string \<Rightarrow> string" where
  "TrimSuffix s p = (if suffix p s then take (length s - length p) s else s)"

definition ParseGitHubURL :: "string \<Rightarrow> error + (string \<times> string)" where
  "ParseGitHubURL raw =
     (let parts = Split (CHR ''/'') (TrimPrefix (TrimSpace raw) ''https://github.com/'') in
      if length parts < 2 then Inl (Err ''invalid github url'')
      else
        let owner = TrimSpace (parts ! 0);
            repo = TrimSuffix (TrimSpace (parts ! 1)) ''.git''
        in if owner = [] \<or> repo = [] then Inl (Err ''invalid github url'')
           else Inr (owner, repo))"

text \<open>\<open>NewFromEnv\<close>; the client is its configuration.\<close>

definition NewFromEnv :: "Provider \<Rightarrow> (string \<times> string \<times> string) io" where
  "NewFromEnv p =
     bind (emit (ReadEnv ''GITHUB_APP_ID'')) (\<lambda>_.
     bind (emit (ReadEnv ''GITHUB_INSTALLATION_ID'')) (\<lambda>_.
     bind (emit (ReadEnv ''GITHUB_PRIVATE_KEY_PEM'')) (\<lambda>_.
       let appID = TrimSpace (getenv p ''GITHUB_APP_ID'');
           installationID = TrimSpace (getenv p ''GITHUB_INSTALLATION_ID'');
           pem = getenv p ''GITHUB_PRIVATE_KEY_PEM''
       in if appID = [] \<or> installationID = [] \<or> TrimSpace pem = []
          then fail (Err ''missing github app env vars'')
          else ret (appID, installationID, pem))))"

text \<open>The request of the token exchange is sent once the assertion and the request exist.\<close>

definition fetchToken :: "Provider \<Rightarrow> string io" where
  "fetchToken p =
     bind (if isl (jwtResult (exchange p)) \<or> requestError (exchange p) \<noteq> None then ret ()
           else emit ExchangeToken) (\<lambda>_.
       lift (InstallationToken (exchange p)))"

definition buildPRBody :: "Provider \<Rightarrow> string \<Rightarrow> ManualItem list \<Rightarrow> string" where
  "buildPRBody p diff manual =
     (let manualText =
            (if manual \<noteq> [] then
               [LF, LF] @ ''## Manual items'' @ [LF] @ ''```json'' @ [LF] @ marshalManual p manual
                 @ [LF] @ ''```''
             else []);
          diff' = (if length diff > 8000 then take 8000 diff @ [LF] @ ''... (truncated)'' else diff)
      in ''Automated safe fixes generated by Argus.'' @ manualText @ [LF, LF]
           @ ''## Diff preview'' @ [LF] @ ''```diff'' @ [LF] @ diff' @ [LF] @ ''```'')"

text \<open>Lines 86 to 130 of \<open>Create\<close>: the result is the mode, the PR URL and the branch.\<close>

definition confirmSteps ::
  "Provider \<Rightarrow> Request \<Rightarrow> string \<Rightarrow> string \<Rightarrow> Plan \<Rightarrow> (string \<times> string \<times> string) io" where
  "confirmSteps p req url diffText plan =
     bind (NewFromEnv p) (\<lambda>gh.
     bind (emit (ReadEnv ''GITHUB_APP_ID'')) (\<lambda>_.
     bind (emit (ReadEnv ''GITHUB_INSTALLATION_ID'')) (\<lambda>_.
     bind (check (ValidateGitHubAppIDs (getenv p ''GITHUB_APP_ID'')
                    (getenv p ''GITHUB_INSTALLATION_ID''))) (\<lambda>_.
     bind (fetchToken p) (\<lambda>token.
     bind (lift (ParseGitHubURL url)) (\<lambda>(owner, repoName).
     bind (if TrimSpace (BaseBranch req) = [] then
             bind (emit (GetRepo owner repoName)) (\<lambda>_. lift (defaultBranch p))
           else ret (TrimSpace (BaseBranch req))) (\<lambda>base.
     bind (emit (GetRef owner repoName base)) (\<lambda>_.
     bind (lift (branchSHA p)) (\<lambda>sha.
       let branch = ''argus/fix-'' @ showInt (nowUnix p) in
     bind (emit (CreateRef owner repoName (''refs/heads/'' @ branch) sha)) (\<lambda>_.
     bind (check (createRefError p)) (\<lambda>_.
     bind (emit (CommitAndPush branch token)) (\<lambda>_.
     bind (check (pushError p)) (\<lambda>_.
       let body = buildPRBody p diffText (Manual plan);
           title = (if TrimSpace (ReqTitle req) = [] then ''Argus: Fix findings'' else ReqTitle req)
       in
     bind (emit (OpenPR title branch base body)) (\<lambda>_.
     bind (lift (createPR p)) (\<lambda>prURL.
       ret (''created'', prURL, branch))))))))))))))))"

subsection \<open>\<open>Create\<close>\<close>

definition supportedURL :: "string \<Rightarrow> bool" where
  "supportedURL url \<longleftrightarrow>
     prefix ''https://github.com/'' (ToLower url) \<and> HasSuffix (ToLower url) ''.git''"

definition Create :: "Local \<Rightarrow> Provider \<Rightarrow> Request \<Rightarrow> Response io" where
  "Create l p req =
     bind (emit (QueryRepo (RepoID req))) (\<lambda>_.
     bind (lift (case repoURL l (RepoID req) of
                   None \<Rightarrow> Inl (Err ''repo not found'')
                 | Some u \<Rightarrow> Inr u)) (\<lambda>url.
     if \<not> supportedURL url then fail (Err ''only github.com .git repos are supported'')
     else
     bind (loadFindings l (RepoID req) (MaxFixes req)) (\<lambda>findings.
     bind (emit MkdirAll) (\<lambda>_.
     bind (check (mkdirError l)) (\<lambda>_.
     deferred RemoveAll (
       bind (emit (GitClone url)) (\<lambda>_.
       bind (lift (cloneResult l)) (\<lambda>fs.
       bind (enforceSizeCap l 350) (\<lambda>_.
       bind (GenerateDryRunDiff l fs findings (MaxFixes req)) (\<lambda>(d, plan, applied, fs').
         let diffText = (if TrimSpace d = [] then sentinelDiff else d) in
       bind (if Confirm req then confirmSteps p req url diffText plan
             else ret (''dry-run'', [], [])) (\<lambda>(mode, prURL, branch).
       bind (recordPR l req mode branch prURL diffText) (\<lambda>_.
         ret \<lparr>Mode = mode, Diff = diffText, PRURL = prURL, Branch = branch\<rparr>))))))))))))"


text \<open>The row that \<open>recordPR\<close> inserts for a response.\<close>

definition rowOf :: "Request \<Rightarrow> Response \<Rightarrow> PRRow" where
  "rowOf req resp =
     \<lparr>rowRepoID = RepoID req, rowStatus = Mode resp, rowBranch = nullIfEmpty (Branch resp),
      rowPRURL = nullIfEmpty (PRURL resp), rowDiffText = Diff resp\<rparr>"

text \<open>A step that leaves table \<open>prs\<close> as it is.\<close>

definition keepsPrs :: "'a io \<Rightarrow> bool" where
  "keepsPrs m \<longleftrightarrow> (\<forall>s. prs (snd (m s)) = prs s)"

text \<open>A computation that adds the row of its response, and no row when it fails.\<close>

definition recordsOnce :: "Request \<Rightarrow> Response io \<Rightarrow> bool" where
  "recordsOnce req m \<longleftrightarrow>
     (\<forall>s. case m s of
            (Inl e, s') \<Rightarrow> prs s' = prs s
          | (Inr resp, s') \<Rightarrow> prs s' = prs s @ [rowOf req resp])"

text \<open>A computation that uses neither the provider nor its credentials.\<close>

definition quiet :: "'a io \<Rightarrow> bool" where
  "quiet m \<longleftrightarrow> (\<forall>s. \<exists>t. trace (snd (m s)) = trace s @ t \<and> \<not> list_ex providerEffect t)"

text \<open>A computation whose results all satisfy a condition.\<close>

definition yields :: "('a \<Rightarrow> bool) \<Rightarrow> 'a io \<Rightarrow> bool" where
  "yields Q m \<longleftrightarrow> (\<forall>s. case m s of (Inl e, s') \<Rightarrow> True | (Inr x, s') \<Rightarrow> Q x)"

definition isDryRun :: "Response \<Rightarrow> bool" where
  "isDryRun resp \<longleftrightarrow> Mode resp = ''dry-run'' \<and> PRURL resp = [] \<and> Branch resp = []"

subsection \<open>Example data\<close>

definition exampleLocal :: "error + filesys \<Rightarrow> Local" where
  "exampleLocal clone =
     \<lparr>repoURL = (\<lambda>i. if i = ''r1'' then Some ''https://github.com/acme/app.git'' else None),
      findingsRows = (\<lambda>i. [secretFinding1]),
      findingsError = None,
      mkdirError = None,
      cloneDir = ''/w/repo'',
      cloneResult = clone,
      repoBytes = 30,
      gitDiff = (\<lambda>fs. case node fs ''/w/repo/app.env'' of
                        File c \<Rightarrow> Inr (''+'' @ c)
                      | Absent \<Rightarrow> Inr []
                      | Faulty \<Rightarrow> Inl (Err ''git diff failed'')),
      insertError = None\<rparr>"

text \<open>An environment without any provider credentials, and a provider that refuses.\<close>

definition noProvider :: Provider where
  "noProvider =
     \<lparr>getenv = (\<lambda>v. []),
      exchange = exchangeWith 401 [],
      defaultBranch = Inl (Err ''github api call failed status=401''),
      branchSHA = Inl (Err ''github api call failed status=401''),
      createRefError = Some (Err ''github api call failed status=401''),
      pushError = Some (Err ''git command failed''),
      marshalManual = (\<lambda>ms. []),
      createPR = Inl (Err ''github api call failed status=401''),
      nowUnix = 7\<rparr>"

definition dryRequest :: Request where
  "dryRequest =
     \<lparr>RepoID = ''r1'', ReqTitle = ''Argus: Fix findings'', BaseBranch = [], Confirm = False,
      MaxFixes = 5, RequestedBy = []\<rparr>"

definition emptyState :: sysstate where
  "emptyState = \<lparr>prs = [], trace = []\<rparr>"

definition dryResponse :: Response where
  "dryResponse =
     \<lparr>Mode = ''dry-run'', Diff = ''+'' @ redactedLine @ [LF] , PRURL = [], Branch = []\<rparr>"

definition dryRow :: PRRow where
  "dryRow =
     \<lparr>rowRepoID = ''r1'', rowStatus = ''dry-run'', rowBranch = None, rowPRURL = None,
      rowDiffText = ''+'' @ redactedLine @ [LF]\<rparr>"

section \<open>Properties of the planner\<close>

lemma FixTypes_distinct [simp]:
  "FixSecretRedaction \<noteq> FixGitIgnoreEnv" "FixGitIgnoreEnv \<noteq> FixSecretRedaction"
  by (simp_all add: FixSecretRedaction_def FixGitIgnoreEnv_def)

lemma planLoop_length:
  "int (length (Actions plan)) \<le> m \<Longrightarrow>
   int (length (Actions (fst (planLoop m fs plan seen)))) \<le> m"
  by (induction fs arbitrary: plan seen) auto

lemma planLoop_seen_mono: "seen \<Longrightarrow> snd (planLoop m fs plan seen)"
  by (induction fs arbitrary: plan) auto

lemma gitignoreInv_secret:
  "gitignoreInv plan seen \<Longrightarrow>
   gitignoreInv (plan\<lparr>Actions := Actions plan @ [secretAction p l]\<rparr>) seen"
  by (simp add: gitignoreInv_def countGitIgnore_def secretAction_def)

lemma gitignoreInv_gitignore:
  "gitignoreInv plan False \<Longrightarrow>
   gitignoreInv (plan\<lparr>Actions := Actions plan @ [gitignoreAction]\<rparr>) True"
  by (simp add: gitignoreInv_def countGitIgnore_def gitignoreAction_def)

lemma gitignoreInv_manual:
  "gitignoreInv plan seen \<Longrightarrow>
   gitignoreInv (plan\<lparr>Manual := Manual plan @ [x]\<rparr>) seen"
  by (simp add: gitignoreInv_def)

lemma planLoop_gitignore:
  "gitignoreInv plan seen \<Longrightarrow>
   gitignoreInv (fst (planLoop m fs plan seen)) (snd (planLoop m fs plan seen))"
proof (induction fs arbitrary: plan seen)
  case Nil
  then show ?case by simp
next
  case (Cons f fs)
  show ?case
  proof (cases "int (length (Actions plan)) \<ge> m")
    case True
    then show ?thesis using Cons.prems by simp
  next
    case notfull: False
    show ?thesis
    proof (cases "isSecretFinding f")
      case True
      then show ?thesis
        using notfull Cons.IH[OF gitignoreInv_secret[OF Cons.prems]] by simp
    next
      case nosecret: False
      show ?thesis
      proof (cases seen)
        case True
        then show ?thesis
          using notfull nosecret Cons.IH[OF gitignoreInv_manual[OF Cons.prems]] by simp
      next
        case False
        then show ?thesis
          using notfull nosecret Cons.IH[OF gitignoreInv_gitignore] Cons.prems by simp
      qed
    qed
  qed
qed

lemma BuildPlan_count:
  "countGitIgnore (Actions (BuildPlan fs m)) \<le> 1"
proof -
  obtain p s where ps: "planLoop (effectiveCap m) fs \<lparr>Actions = [], Manual = []\<rparr> False = (p, s)"
    by (cases "planLoop (effectiveCap m) fs \<lparr>Actions = [], Manual = []\<rparr> False")
  have "gitignoreInv \<lparr>Actions = [], Manual = []\<rparr> False"
    by (simp add: gitignoreInv_def countGitIgnore_def)
  from planLoop_gitignore[OF this, of "effectiveCap m" fs] ps
  have "gitignoreInv p s" by simp
  then show ?thesis
    by (auto simp: BuildPlan_def ps gitignoreInv_def countGitIgnore_def gitignoreAction_def split: if_splits)
qed

lemma effectiveCap_pos: "0 < effectiveCap m"
  by (simp add: effectiveCap_def)

lemma BuildPlan_length: "int (length (Actions (BuildPlan fs m))) \<le> effectiveCap m"
proof -
  obtain p s where ps: "planLoop (effectiveCap m) fs \<lparr>Actions = [], Manual = []\<rparr> False = (p, s)"
    by (cases "planLoop (effectiveCap m) fs \<lparr>Actions = [], Manual = []\<rparr> False")
  have "int (length (Actions \<lparr>Actions = [], Manual = []\<rparr>)) \<le> effectiveCap m"
    using effectiveCap_pos[of m] by simp
  from planLoop_length[OF this, of fs False] ps
  have "int (length (Actions p)) \<le> effectiveCap m" by simp
  then show ?thesis
    by (auto simp: BuildPlan_def ps)
qed

text \<open>While the flag is unset, every action added so far is a secret redaction.\<close>

lemma planLoop_unseen:
  "\<not> snd (planLoop m fs plan seen) \<Longrightarrow> list_all (\<lambda>a. Type a = FixSecretRedaction) (Actions plan) \<Longrightarrow>
   list_all (\<lambda>a. Type a = FixSecretRedaction) (Actions (fst (planLoop m fs plan seen)))"
  by (induction fs arbitrary: plan seen) (auto simp: secretAction_def planLoop_seen_mono split: if_splits)

lemma planLoop_seen:
  "snd (planLoop m fs plan seen) \<Longrightarrow> gitignoreInv plan seen \<Longrightarrow>
   countGitIgnore (Actions (fst (planLoop m fs plan seen))) = 1"
  using planLoop_gitignore[of plan seen m fs] by (simp add: gitignoreInv_def)

lemma BuildPlan_gitignore_or_full:
  "countGitIgnore (Actions (BuildPlan fs m)) = 1 \<or>
   (int (length (Actions (BuildPlan fs m))) = effectiveCap m \<and>
    list_all (\<lambda>a. Type a = FixSecretRedaction) (Actions (BuildPlan fs m)))"
proof -
  obtain p s where ps: "planLoop (effectiveCap m) fs \<lparr>Actions = [], Manual = []\<rparr> False = (p, s)"
    by (cases "planLoop (effectiveCap m) fs \<lparr>Actions = [], Manual = []\<rparr> False")
  have inv0: "gitignoreInv \<lparr>Actions = [], Manual = []\<rparr> False"
    by (simp add: gitignoreInv_def countGitIgnore_def)
  have len: "int (length (Actions p)) \<le> effectiveCap m"
    using planLoop_length[of "\<lparr>Actions = [], Manual = []\<rparr>" "effectiveCap m" fs False] ps effectiveCap_pos[of m]
    by simp
  show ?thesis
  proof (cases s)
    case True
    then have "countGitIgnore (Actions p) = 1"
      using planLoop_seen[of "effectiveCap m" fs "\<lparr>Actions = [], Manual = []\<rparr>" False] ps inv0 by simp
    then show ?thesis using True by (simp add: BuildPlan_def ps)
  next
    case False
    then have sec: "list_all (\<lambda>a. Type a = FixSecretRedaction) (Actions p)"
      using planLoop_unseen[of "effectiveCap m" fs "\<lparr>Actions = [], Manual = []\<rparr>" False] ps by simp
    have c0: "countGitIgnore (Actions p) = 0"
      using planLoop_gitignore[OF inv0, of "effectiveCap m" fs] ps False by (simp add: gitignoreInv_def)
    show ?thesis
    proof (cases "int (length (Actions p)) < effectiveCap m")
      case True
      then show ?thesis using False c0
        by (simp add: BuildPlan_def ps countGitIgnore_def gitignoreAction_def)
    next
      case F2: False
      then show ?thesis using False sec len by (simp add: BuildPlan_def ps)
    qed
  qed
qed


lemma isSecretFinding_secretFinding1: "isSecretFinding secretFinding1"
  by code_simp

lemma isSecretFinding_otherFinding1: "\<not> isSecretFinding otherFinding1"
  by code_simp

lemma BuildPlan_secret_cap1:
  "BuildPlan [secretFinding1] 1 =
     \<lparr>Actions = [secretAction (ToSlash (TrimSpace (FilePath secretFinding1))) 1], Manual = []\<rparr>"
proof -
  have "LineStart secretFinding1 = 1"
    by (simp add: secretFinding1_def)
  then show ?thesis
    by (simp add: BuildPlan_def effectiveCap_def isSecretFinding_secretFinding1)
qed

text \<open>
  C3. For every list of findings and every cap \<open>M > 0\<close>, the plan built by \<open>BuildPlan\<close>
  has at most \<open>M\<close> actions.
\<close>

theorem BuildPlan_actions_le_cap:
  "0 < M \<Longrightarrow> int (length (Actions (BuildPlan F M))) \<le> M"
  using BuildPlan_length[of F M] by (simp add: effectiveCap_def)

theorem BuildPlan_actions_le_cap_witness:
  "(0::int) < 1 \<and> int (length (Actions (BuildPlan [secretFinding1, secretFinding1] 1))) \<le> 1"
proof -
  have h: "(0::int) < 1" by simp
  from h BuildPlan_actions_le_cap[OF h] show ?thesis
    by (rule conjI)
qed

text \<open>
  C8. For every list of findings and every cap, the plan built by \<open>BuildPlan\<close> holds at
  most one action of type GitIgnoreEnv.
\<close>

theorem BuildPlan_at_most_one_gitignore:
  "countGitIgnore (Actions (BuildPlan F M)) \<le> 1"
  by (rule BuildPlan_count)

theorem BuildPlan_at_most_one_gitignore_witness:
  "countGitIgnore (Actions (BuildPlan [otherFinding1, otherFinding1, secretFinding1] 0)) \<le> 1"
  by (rule BuildPlan_at_most_one_gitignore)

text \<open>
  C2, as stated, fails: with one secret finding and cap 1 the walk fills the cap with the
  secret redaction, the guard \<open>len(plan.Actions) < maxFixes\<close> after the walk is false, and
  the plan holds no GitIgnoreEnv action.
\<close>

theorem BuildPlan_gitignore_counterexample:
  "FixGitIgnoreEnv \<notin> set (map Type (Actions (BuildPlan [secretFinding1] 1)))"
  by (simp add: BuildPlan_secret_cap1 secretAction_def)

text \<open>
  C2, amended. A plan built by \<open>BuildPlan\<close> holds no GitIgnoreEnv action only when the
  cap is used up by secret redactions alone: then the number of actions equals the
  effective cap (10 for a cap \<open>\<le> 0\<close>) and every action is a SecretRedaction. In every
  other case the plan holds a GitIgnoreEnv action; it is appended after the walk when the
  walk emitted none and room remains under the cap.
\<close>

theorem BuildPlan_gitignore_unless_full:
  "FixGitIgnoreEnv \<notin> set (map Type (Actions (BuildPlan F M))) \<Longrightarrow>
   int (length (Actions (BuildPlan F M))) = effectiveCap M \<and>
   list_all (\<lambda>a. Type a = FixSecretRedaction) (Actions (BuildPlan F M))"
proof -
  assume none: "FixGitIgnoreEnv \<notin> set (map Type (Actions (BuildPlan F M)))"
  then have "filter (\<lambda>a. Type a = FixGitIgnoreEnv) (Actions (BuildPlan F M)) = []"
    by (force simp: filter_empty_conv)
  then have "countGitIgnore (Actions (BuildPlan F M)) \<noteq> 1"
    by (simp add: countGitIgnore_def)
  then show ?thesis
    using BuildPlan_gitignore_or_full[of F M] by simp
qed

theorem BuildPlan_gitignore_unless_full_witness:
  "FixGitIgnoreEnv \<notin> set (map Type (Actions (BuildPlan [secretFinding1] 1))) \<and>
   int (length (Actions (BuildPlan [secretFinding1] 1))) = effectiveCap 1 \<and>
   list_all (\<lambda>a. Type a = FixSecretRedaction) (Actions (BuildPlan [secretFinding1] 1))"
proof -
  have h: "FixGitIgnoreEnv \<notin> set (map Type (Actions (BuildPlan [secretFinding1] 1)))"
    by (simp add: BuildPlan_secret_cap1 secretAction_def)
  from h BuildPlan_gitignore_unless_full[OF h] show ?thesis
    by (rule conjI)
qed

section \<open>Properties of the applier\<close>

subsection \<open>Lines\<close>

lemma Split_nonempty [simp]: "Split sep s \<noteq> []"
  by (induction s) (auto split: list.splits)

lemma Join_Cons: "ls \<noteq> [] \<Longrightarrow> Join sep (l # ls) = l @ sep # Join sep ls"
  by (cases ls) auto

lemma Join_Split: "Join sep (Split sep s) = s"
proof (induction s)
  case Nil
  then show ?case by simp
next
  case (Cons c cs)
  show ?case
  proof (cases "c = sep")
    case True
    then show ?thesis using Cons by (simp add: Join_Cons)
  next
    case False
    obtain l ls where sp: "Split sep cs = l # ls"
      by (cases "Split sep cs") auto
    then show ?thesis using False Cons by (cases ls) auto
  qed
qed

lemma Split_no_sep: "l \<in> set (Split sep s) \<Longrightarrow> sep \<notin> set l"
proof (induction s arbitrary: l)
  case Nil
  then show ?case by simp
next
  case (Cons c cs)
  obtain m ms where sp: "Split sep cs = m # ms"
    by (cases "Split sep cs") auto
  show ?case
  proof (cases "c = sep")
    case True
    then show ?thesis using Cons by auto
  next
    case False
    then show ?thesis using Cons sp by auto
  qed
qed

lemma Split_append_no_sep:
  "sep \<notin> set l \<Longrightarrow> Split sep (l @ sep # s) = l # Split sep s"
  by (induction l) auto

lemma Split_single: "sep \<notin> set l \<Longrightarrow> Split sep l = [l]"
  by (induction l) auto

lemma Split_Join:
  "ls \<noteq> [] \<Longrightarrow> (\<And>l. l \<in> set ls \<Longrightarrow> sep \<notin> set l) \<Longrightarrow> Split sep (Join sep ls) = ls"
proof (induction ls rule: Join.induct)
  case (1 sep)
  then show ?case by simp
next
  case (2 sep l)
  then show ?case by (simp add: Split_single)
next
  case (3 sep l m ls)
  then show ?case by (simp add: Split_append_no_sep)
qed

lemma ReplaceAll_CRLF_append:
  "ReplaceAll_CRLF (a @ CR # LF # b) = ReplaceAll_CRLF a @ LF # ReplaceAll_CRLF b"
  by (induction a rule: ReplaceAll_CRLF.induct) auto

lemma ReplaceAll_CRLF_id: "CR \<notin> set s \<Longrightarrow> ReplaceAll_CRLF s = s"
  by (induction s rule: ReplaceAll_CRLF.induct) auto

lemma classRun_suffix: "suffix (snd (classRun cls s)) s"
proof (induction cls s rule: classRun.induct)
  case (1 cls)
  then show ?case by simp
next
  case (2 cls c cs)
  show ?case
  proof (cases "classRune cls (c # cs)")
    case None
    then show ?thesis by simp
  next
    case (Some dw)
    obtain d w where dw: "dw = (d, w)" by (cases dw)
    have "suffix (snd (classRun cls (drop (w - 1) cs))) (drop (w - 1) cs)"
      using 2 Some dw by simp
    moreover have "suffix (drop (w - 1) cs) (c # cs)"
      by (simp add: suffix_ConsI suffix_drop)
    ultimately have "suffix (snd (classRun cls (drop (w - 1) cs))) (c # cs)"
      using suffix_order.trans by blast
    then show ?thesis using Some dw by (auto split: prod.splits)
  qed
qed

lemma skipBlank_suffix: "suffix (skipBlank s) s"
  by (simp add: skipBlank_def suffix_dropWhile)

lemma afterSeparator_suffix: "afterSeparator s = Some t \<Longrightarrow> suffix t s"
proof -
  assume a: "afterSeparator s = Some t"
  show ?thesis
  proof (cases "skipBlank s")
    case Nil
    then show ?thesis using a skipBlank_suffix[of s]
      by (auto simp: afterSeparator_def Let_def split: if_splits)
  next
    case (Cons c cs)
    have cs: "suffix cs s"
      using skipBlank_suffix[of s] Cons by (auto dest: suffix_ConsD)
    show ?thesis
    proof (cases "c = CHR '':'' \<or> c = CHR ''=''")
      case True
      then have "t = skipBlank cs" using a Cons by (auto simp: afterSeparator_def Let_def)
      then show ?thesis using cs skipBlank_suffix[of cs] suffix_order.trans by blast
    next
      case False
      then have "t = skipBlank s" using a Cons by (auto simp: afterSeparator_def Let_def split: if_splits)
      then show ?thesis by (simp add: skipBlank_suffix)
    qed
  qed
qed

lemma afterQuoted_suffix: "afterQuoted q s = Some t \<Longrightarrow> suffix t s"
proof -
  assume "afterQuoted q s = Some t"
  then have t: "t = tl (dropWhile (\<lambda>c. c \<noteq> q) s)"
    by (auto simp: afterQuoted_def split: if_splits)
  have "suffix (tl (dropWhile (\<lambda>c. c \<noteq> q) s)) (dropWhile (\<lambda>c. c \<noteq> q) s)"
    by (simp add: suffix_tl)
  then show ?thesis using t suffix_dropWhile suffix_order.trans by blast
qed

lemma afterValue_suffix: "afterValue s = Some t \<Longrightarrow> suffix t s"
proof -
  assume a: "afterValue s = Some t"
  then obtain c cs where s: "s = c # cs" by (cases s) (auto simp: afterValue_def)
  consider "c = CHR 0x22" | "c \<noteq> CHR 0x22" "c = CHR 0x27" | "c \<noteq> CHR 0x22" "c \<noteq> CHR 0x27"
    by blast
  then show ?thesis
  proof cases
    case 1
    then have "afterQuoted (CHR 0x22) cs = Some t" using a s by (simp add: afterValue_def)
    then have "suffix t cs" by (rule afterQuoted_suffix)
    then show ?thesis using s by (simp add: suffix_ConsI)
  next
    case 2
    then have "afterQuoted (CHR 0x27) cs = Some t" using a s by (simp add: afterValue_def)
    then have "suffix t cs" by (rule afterQuoted_suffix)
    then show ?thesis using s by (simp add: suffix_ConsI)
  next
    case 3
    then have "t = snd (classRun valueChars s)"
      using a s by (auto simp: afterValue_def split: prod.splits if_splits)
    then show ?thesis by (simp add: classRun_suffix)
  qed
qed

text \<open>The replacement of a line is built from pieces of the line and the placeholder.\<close>

lemma redactLine_shape:
  "redactLine l = Some r \<Longrightarrow> \<exists>k m4. suffix m4 l \<and> r = take k l @ placeholder @ m4"
proof -
  assume a: "redactLine l = Some r"
  obtain name rest where nr: "classRun nameChars (skipBlank l) = (name, rest)"
    by (cases "classRun nameChars (skipBlank l)")
  from a nr obtain val m4 where
    v: "afterSeparator rest = Some val" and m: "afterValue val = Some m4"
    and r: "r = take (length l - length val) l @ placeholder @ m4"
    by (auto simp: redactLine_def split: if_splits option.splits)
  have "suffix rest (skipBlank l)" using classRun_suffix[of nameChars "skipBlank l"] nr by simp
  then have "suffix rest l" using skipBlank_suffix suffix_order.trans by blast
  then have "suffix val l" using afterSeparator_suffix[OF v] suffix_order.trans by blast
  then have "suffix m4 l" using afterValue_suffix[OF m] suffix_order.trans by blast
  then show ?thesis using r by blast
qed

lemma LF_notin_placeholder: "LF \<notin> set placeholder"
  by (simp add: placeholder_def)

lemma redactLine_no_LF: "redactLine l = Some r \<Longrightarrow> LF \<notin> set l \<Longrightarrow> LF \<notin> set r"
proof -
  assume a: "redactLine l = Some r" and l: "LF \<notin> set l"
  from redactLine_shape[OF a] obtain k m4 where
    m4: "suffix m4 l" and r: "r = take k l @ placeholder @ m4" by blast
  have "set m4 \<subseteq> set l" using m4 by (rule set_mono_suffix)
  moreover have "set (take k l) \<subseteq> set l" by (rule set_take_subset)
  ultimately show ?thesis using r l LF_notin_placeholder by auto
qed

subsection \<open>The line that is rewritten\<close>

lemma firstMatch_Some:
  "firstMatch ls = Some (i, r) \<Longrightarrow>
   i < length ls \<and> redactLine (ls ! i) = Some r \<and> (\<forall>j<i. redactLine (ls ! j) = None)"
proof (induction ls arbitrary: i r)
  case Nil
  then show ?case by simp
next
  case (Cons l ls)
  show ?case
  proof (cases "redactLine l")
    case (Some r')
    then show ?thesis using Cons.prems by simp
  next
    case None
    then obtain i' where fm: "firstMatch ls = Some (i', r)" and i: "i = Suc i'"
      using Cons.prems by (auto split: option.splits)
    from Cons.IH[OF fm] have ih: "i' < length ls" "redactLine (ls ! i') = Some r"
      "\<forall>j<i'. redactLine (ls ! j) = None" by simp_all
    have "\<forall>j<Suc i'. redactLine ((l # ls) ! j) = None"
    proof (intro allI impI)
      fix j assume "j < Suc i'"
      then show "redactLine ((l # ls) ! j) = None"
        using None ih(3) by (cases j) auto
    qed
    then show ?thesis using ih i by simp
  qed
qed

lemma firstMatch_None:
  "firstMatch ls = None \<Longrightarrow> l \<in> set ls \<Longrightarrow> redactLine l = None"
  by (induction ls) (auto split: option.splits)

lemma firstMatch_None_iff:
  "firstMatch ls = None \<longleftrightarrow> (\<forall>l\<in>set ls. redactLine l = None)"
  by (induction ls) (auto split: option.splits)

lemma chooseLine_Some:
  assumes "chooseLine n ls = Some (i, r)"
  shows "i < length ls \<and> redactLine (ls ! i) = Some r \<and>
         (if 0 < n \<and> n \<le> int (length ls) \<and> redactLine (ls ! nat (n - 1)) \<noteq> None
          then i = nat (n - 1)
          else (\<forall>j<i. redactLine (ls ! j) = None))"
proof (cases "0 < n \<and> n \<le> int (length ls) \<and> redactLine (ls ! nat (n - 1)) \<noteq> None")
  case True
  then obtain r' where r': "redactLine (ls ! nat (n - 1)) = Some r'" by auto
  then have "i = nat (n - 1)" "r = r'" using assms True by (simp_all add: chooseLine_def)
  moreover have "nat (n - 1) < length ls" using True by auto
  ultimately show ?thesis using True r' by simp
next
  case False
  then have "firstMatch ls = Some (i, r)"
    using assms by (auto simp: chooseLine_def split: if_splits option.splits)
  from firstMatch_Some[OF this] have
    "i < length ls \<and> redactLine (ls ! i) = Some r \<and> (\<forall>j<i. redactLine (ls ! j) = None)" .
  then show ?thesis using False by (simp only: if_False) simp
qed

lemma fileLines_no_LF: "l \<in> set (fileLines s) \<Longrightarrow> LF \<notin> set l"
  unfolding fileLines_def by (rule Split_no_sep)

lemma Split_Join_update:
  assumes "i < length (fileLines s)" "redactLine (fileLines s ! i) = Some r"
  shows "Split LF (Join LF ((fileLines s)[i := r])) = (fileLines s)[i := r]"
proof (rule Split_Join)
  show "(fileLines s)[i := r] \<noteq> []" using assms(1) by auto
next
  fix l assume "l \<in> set ((fileLines s)[i := r])"
  then have "l = r \<or> l \<in> set (fileLines s)"
    using set_update_subset_insert by fastforce
  moreover have "LF \<notin> set r"
    using redactLine_no_LF[OF assms(2)] fileLines_no_LF[OF nth_mem[OF assms(1)]] by simp
  ultimately show "LF \<notin> set l" using fileLines_no_LF by blast
qed

subsection \<open>Single redactions\<close>

lemma redactLine_exampleSecretLine: "redactLine exampleSecretLine = Some redactedLine"
  by code_simp

lemma redactedLine_no_secret: "\<not> Contains redactedLine ''supersecretvalue''"
  by code_simp

lemma valueChars_nameChars: "c \<in> set valueChars \<Longrightarrow> c \<in> set nameChars"
  by (auto simp: valueChars_def nameChars_def)

lemma valueChars_not_blank: "c \<in> set valueChars \<Longrightarrow> \<not> isBlank c"
  by (auto simp: valueChars_def uppers_def lowers_def digits_def isBlank_def)

lemma valueChars_not_CR: "CR \<notin> set valueChars"
  by (simp add: valueChars_def uppers_def lowers_def digits_def)

lemma valueChars_not_LF: "LF \<notin> set valueChars"
  by (simp add: valueChars_def uppers_def lowers_def digits_def)

lemma classRun_all: "set v \<subseteq> set cls \<Longrightarrow> classRun cls v = (map lower_char v, [])"
  by (induction v) (auto simp: classRune_def)

lemma skipBlank_id: "set v \<subseteq> set valueChars \<Longrightarrow> skipBlank v = v"
  by (cases v) (auto simp: skipBlank_def valueChars_not_blank)

lemma afterSeparator_Nil: "afterSeparator [] = None"
  by (simp add: afterSeparator_def skipBlank_def)

lemma redactLine_bare: "set v \<subseteq> set valueChars \<Longrightarrow> redactLine v = None"
proof -
  assume v: "set v \<subseteq> set valueChars"
  then have "set v \<subseteq> set nameChars" using valueChars_nameChars by blast
  then have "classRun nameChars (skipBlank v) = (map lower_char v, [])"
    using v by (simp add: skipBlank_id classRun_all)
  then show ?thesis by (simp add: redactLine_def afterSeparator_Nil)
qed

lemma redactLine_Nil: "redactLine [] = None"
  using redactLine_bare[of "[]"] by simp

lemma chooseLine_None:
  "(\<And>l. l \<in> set ls \<Longrightarrow> redactLine l = None) \<Longrightarrow> chooseLine n ls = None"
proof -
  assume a: "\<And>l. l \<in> set ls \<Longrightarrow> redactLine l = None"
  then have f: "firstMatch ls = None" by (simp add: firstMatch_None_iff)
  show ?thesis
  proof (cases "0 < n \<and> n \<le> int (length ls)")
    case True
    then have "nat (n - 1) < length ls" by auto
    then have "redactLine (ls ! nat (n - 1)) = None" using a nth_mem by blast
    then show ?thesis using f True by (simp add: chooseLine_def)
  next
    case False
    then show ?thesis using f by (auto simp: chooseLine_def)
  qed
qed

lemma fileLines_bare:
  assumes "set v \<subseteq> set valueChars"
  shows "fileLines v = [v]" and "fileLines (v @ [LF]) = [v, []]"
proof -
  have cr: "CR \<notin> set v" and lf: "LF \<notin> set v"
    using assms valueChars_not_CR valueChars_not_LF by blast+
  show "fileLines v = [v]"
    using cr lf by (simp add: fileLines_def ReplaceAll_CRLF_id Split_single)
  have "ReplaceAll_CRLF (v @ [LF]) = v @ [LF]"
    using cr by (simp add: ReplaceAll_CRLF_id)
  then show "fileLines (v @ [LF]) = [v, []]"
    using lf by (simp add: fileLines_def Split_append_no_sep)
qed

lemma redactSecretLine_bare:
  assumes "node fs path = File s" "s = v \<or> s = v @ [LF]" "set v \<subseteq> set valueChars"
  shows "redactSecretLine fs path n = Inr (False, fs)"
proof -
  have "\<And>l. l \<in> set (fileLines s) \<Longrightarrow> redactLine l = None"
    using assms(2) fileLines_bare[OF assms(3)] redactLine_bare[OF assms(3)] redactLine_Nil
    by auto
  then have "chooseLine n (fileLines s) = None" by (rule chooseLine_None)
  then show ?thesis using assms(1) by (simp add: redactSecretLine_def ReadFile_def)
qed

lemma nameChars_not_blank: "c \<in> set nameChars \<Longrightarrow> \<not> isBlank c"
  by (auto simp: nameChars_def uppers_def lowers_def digits_def isBlank_def)

lemma nameChars_not_CR: "CR \<notin> set nameChars"
  by (simp add: nameChars_def uppers_def lowers_def digits_def)

lemma nameChars_not_LF: "LF \<notin> set nameChars"
  by (simp add: nameChars_def uppers_def lowers_def digits_def)

lemma blank_not_CR_LF: "isBlank c \<Longrightarrow> c \<noteq> CR \<and> c \<noteq> LF"
  by (auto simp: isBlank_def)

lemma classRune_blank: "isBlank c \<Longrightarrow> c \<notin> set cls \<Longrightarrow> classRune cls (c # cs) = None"
  by (auto simp: classRune_def isBlank_def)

lemma classRun_stop:
  "set a \<subseteq> set cls \<Longrightarrow> b = [] \<or> classRune cls b = None \<Longrightarrow>
   classRun cls (a @ b) = (map lower_char a, b)"
proof (induction a)
  case Nil
  then show ?case by (cases b) auto
next
  case (Cons c a)
  then show ?case by (simp add: classRune_def)
qed

lemma skipBlank_blanks:
  "list_all isBlank b \<Longrightarrow> v = [] \<or> \<not> isBlank (hd v) \<Longrightarrow> skipBlank (b @ v) = v"
  unfolding skipBlank_def
  by (induction b) (auto simp: dropWhile_eq_self_iff)

lemma skipBlank_name: "set a \<subseteq> set nameChars \<Longrightarrow> a \<noteq> [] \<Longrightarrow> skipBlank (a @ b) = a @ b"
  by (cases a) (auto simp: skipBlank_def nameChars_not_blank)

lemma valueChars_head: "set v \<subseteq> set valueChars \<Longrightarrow> v = [] \<or> \<not> isBlank (hd v)"
  by (cases v) (auto simp: valueChars_not_blank)

lemma valueChars_not_sep:
  "c \<in> set valueChars \<Longrightarrow> c \<noteq> CHR '':'' \<and> c \<noteq> CHR ''='' \<and> c \<noteq> CHR 0x22 \<and> c \<noteq> CHR 0x27"
  by (auto simp: valueChars_def uppers_def lowers_def digits_def)

lemma afterValue_short:
  assumes "set v \<subseteq> set valueChars" "length v < 12"
  shows "afterValue v = None"
proof (cases v)
  case Nil
  then show ?thesis by (simp add: afterValue_def)
next
  case (Cons c cs)
  then have c: "c \<noteq> CHR 0x22" "c \<noteq> CHR 0x27" using assms(1) valueChars_not_sep by auto
  have "classRun valueChars v = (map lower_char v, [])" using assms(1) by (rule classRun_all)
  then show ?thesis using Cons c assms(2) by (simp add: afterValue_def)
qed

lemma afterSeparator_blanks:
  assumes "list_all isBlank b" "b \<noteq> []" "set v \<subseteq> set valueChars"
  shows "afterSeparator (b @ v) = Some v"
proof -
  have sk: "skipBlank (b @ v) = v"
    using assms(1) valueChars_head[OF assms(3)] by (rule skipBlank_blanks)
  have ne: "v \<noteq> b @ v" using assms(2) by simp
  show ?thesis
  proof (cases v)
    case Nil
    then show ?thesis using sk ne by (simp add: afterSeparator_def)
  next
    case (Cons c cs)
    then have "c \<noteq> CHR '':''" "c \<noteq> CHR ''=''" using assms(3) valueChars_not_sep by auto
    then show ?thesis using sk ne Cons by (simp add: afterSeparator_def Let_def)
  qed
qed

text \<open>A name, blanks and a short bare value, with no colon and no equals sign.\<close>

lemma redactLine_short_bare:
  assumes n: "set name \<subseteq> set nameChars" and b: "list_all isBlank blanks"
    and v: "set v \<subseteq> set valueChars" and len: "length v < 12"
  shows "redactLine (name @ blanks @ v) = None"
proof (cases "blanks = []")
  case True
  have vn: "set v \<subseteq> set nameChars" using v valueChars_nameChars by blast
  have all: "set (name @ v) \<subseteq> set nameChars" using n vn by simp
  have "skipBlank (name @ v) = name @ v"
  proof (cases name)
    case Nil
    then show ?thesis using skipBlank_id[OF v] by simp
  next
    case (Cons c cs)
    then show ?thesis using skipBlank_name[OF n, of v] by simp
  qed
  then have "classRun nameChars (skipBlank (name @ v)) = (map lower_char (name @ v), [])"
    using classRun_all[OF all] by simp
  then show ?thesis using True by (simp add: redactLine_def afterSeparator_Nil)
next
  case False
  show ?thesis
  proof (cases "name = []")
    case True
    have vn: "set v \<subseteq> set nameChars" using v valueChars_nameChars by blast
    have "skipBlank (blanks @ v) = v"
      using b valueChars_head[OF v] by (rule skipBlank_blanks)
    then have "classRun nameChars (skipBlank (name @ blanks @ v)) = (map lower_char v, [])"
      using True classRun_all[OF vn] by simp
    then show ?thesis by (simp add: redactLine_def afterSeparator_Nil)
  next
    case nn: False
    obtain c cs where bl: "blanks = c # cs" using False by (cases blanks) auto
    then have cb: "isBlank c" using b by simp
    then have "c \<notin> set nameChars" using nameChars_not_blank by blast
    then have stop: "classRune nameChars (blanks @ v) = None"
      using cb bl classRune_blank by simp
    have "skipBlank (name @ blanks @ v) = name @ blanks @ v"
      using skipBlank_name[OF n nn] by simp
    then have run: "classRun nameChars (skipBlank (name @ blanks @ v)) =
        (map lower_char name, blanks @ v)"
      using classRun_stop[OF n, of "blanks @ v"] stop by simp
    have sep: "afterSeparator (blanks @ v) = Some v"
      using b False v by (rule afterSeparator_blanks)
    show ?thesis
      using run sep afterValue_short[OF v len] by (simp add: redactLine_def)
  qed
qed

lemma fileLines_single:
  assumes "CR \<notin> set l" "LF \<notin> set l"
  shows "fileLines l = [l]" and "fileLines (l @ [LF]) = [l, []]"
proof -
  show "fileLines l = [l]"
    using assms by (simp add: fileLines_def ReplaceAll_CRLF_id Split_single)
  have "ReplaceAll_CRLF (l @ [LF]) = l @ [LF]"
    using assms(1) by (simp add: ReplaceAll_CRLF_id)
  then show "fileLines (l @ [LF]) = [l, []]"
    using assms(2) by (simp add: fileLines_def Split_append_no_sep)
qed

lemma short_bare_no_CR_LF:
  assumes "set name \<subseteq> set nameChars" "list_all isBlank blanks" "set v \<subseteq> set valueChars"
  shows "CR \<notin> set (name @ blanks @ v)" and "LF \<notin> set (name @ blanks @ v)"
proof -
  have "\<And>c. c \<in> set blanks \<Longrightarrow> c \<noteq> CR \<and> c \<noteq> LF"
    using assms(2) blank_not_CR_LF by (auto simp: list_all_iff)
  then show "CR \<notin> set (name @ blanks @ v)" and "LF \<notin> set (name @ blanks @ v)"
    using assms(1,3) nameChars_not_CR nameChars_not_LF valueChars_not_CR valueChars_not_LF
    by auto
qed

lemma redactSecretLine_short_bare:
  assumes "node fs path = File s"
    and "s = name @ blanks @ v \<or> s = (name @ blanks @ v) @ [LF]"
    and "set name \<subseteq> set nameChars" "list_all isBlank blanks"
    and "set v \<subseteq> set valueChars" "length v < 12"
  shows "redactSecretLine fs path n = Inr (False, fs)"
proof -
  note nl = short_bare_no_CR_LF[OF assms(3,4,5)]
  note fl = fileLines_single[OF nl]
  have "\<And>l. l \<in> set (fileLines s) \<Longrightarrow> redactLine l = None"
    using assms(2) fl redactLine_short_bare[OF assms(3,4,5,6)] redactLine_Nil
    by auto
  then have "chooseLine n (fileLines s) = None" by (rule chooseLine_None)
  then show ?thesis using assms(1) by (simp add: redactSecretLine_def ReadFile_def)
qed

lemma redactSecretLine_declared:
  assumes "node fs path = File s" "\<not> unwritable fs path"
    "0 < n" "n \<le> int (length (fileLines s))" "redactLine (fileLines s ! nat (n - 1)) = Some r"
  shows "redactSecretLine fs path n =
         Inr (True, fs\<lparr>node := (node fs)(path := File (Join LF ((fileLines s)[nat (n - 1) := r])))\<rparr>)"
  using assms by (simp add: redactSecretLine_def ReadFile_def chooseLine_def WriteFile_def)

lemma ApplyPlan_single_secret:
  assumes "Type a = FixSecretRedaction"
    "\<not> escapesRoot (Clean repoDir) (Join2 (Clean repoDir) (Clean (ActFilePath a)))"
    "redactSecretLine fs (Join2 (Clean repoDir) (Clean (ActFilePath a))) (ActLineStart a) = Inr (applied, fs')"
  shows "ApplyPlan repoDir \<lparr>Actions = [a], Manual = ms\<rparr> fs =
         (None,
          if applied then \<lparr>Applied = [a], ResManual = ms\<rparr>
          else \<lparr>Applied = [],
                 ResManual = ms @ [manualFor ''manual fix required: no safe redaction match found'' a]\<rparr>,
          fs')"
  using assms by (simp add: ApplyPlan_def applyAction_def Let_def)

lemma Clean_w_repo: "Clean ''/w/repo'' = ''/w/repo''"
  by code_simp

lemma target_app_env: "Join2 ''/w/repo'' (Clean ''app.env'') = ''/w/repo/app.env''"
  by code_simp

lemma not_escapes_app_env: "\<not> escapesRoot ''/w/repo'' ''/w/repo/app.env''"
  by code_simp

lemma fileLines_example: "fileLines (exampleSecretLine @ [LF]) = [exampleSecretLine, []]"
  by code_simp

text \<open>
  C5. When the declared line of the target file is \<open>API_TOKEN='supersecretvalue'\<close>,
  applying the SecretRedaction action rewrites that line to
  \<open>API_TOKEN="${SECRET_FROM_ENV}"\<close>, in which the secret no longer occurs, and the action
  is recorded as applied. When the file holds only a line with a bare value shorter than
  12 bytes (a run of letters, digits, \<open>_\<close> and \<open>-\<close>) and neither a colon nor an equals sign
  (the value alone, or a name and blanks before it), nothing is rewritten and the action
  is recorded as a Manual item.
\<close>

theorem redaction_examples:
  assumes "Type a = FixSecretRedaction"
    and "target = Join2 (Clean repoDir) (Clean (ActFilePath a))"
    and "\<not> escapesRoot (Clean repoDir) target"
    and "node fs target = File s"
  shows "(\<not> unwritable fs target \<and> 0 < ActLineStart a \<and>
          ActLineStart a \<le> int (length (fileLines s)) \<and>
          fileLines s ! nat (ActLineStart a - 1) = exampleSecretLine \<longrightarrow>
            ApplyPlan repoDir \<lparr>Actions = [a], Manual = ms\<rparr> fs =
              (None, \<lparr>Applied = [a], ResManual = ms\<rparr>,
               fs\<lparr>node := (node fs)(target :=
                     File (Join LF ((fileLines s)[nat (ActLineStart a - 1) := redactedLine])))\<rparr>) \<and>
            \<not> Contains redactedLine ''supersecretvalue'') \<and>
         ((s = name @ blanks @ v \<or> s = (name @ blanks @ v) @ [LF]) \<and>
          set name \<subseteq> set nameChars \<and> list_all isBlank blanks \<and>
          set v \<subseteq> set valueChars \<and> length v < 12 \<longrightarrow>
            ApplyPlan repoDir \<lparr>Actions = [a], Manual = ms\<rparr> fs =
              (None,
               \<lparr>Applied = [],
                  ResManual = ms @ [manualFor ''manual fix required: no safe redaction match found'' a]\<rparr>,
               fs))"
proof (intro conjI impI)
  assume h: "\<not> unwritable fs target \<and> 0 < ActLineStart a \<and>
          ActLineStart a \<le> int (length (fileLines s)) \<and>
          fileLines s ! nat (ActLineStart a - 1) = exampleSecretLine"
  have "redactSecretLine fs target (ActLineStart a) =
        Inr (True, fs\<lparr>node := (node fs)(target :=
               File (Join LF ((fileLines s)[nat (ActLineStart a - 1) := redactedLine])))\<rparr>)"
    using h assms(4) by (intro redactSecretLine_declared) (simp_all add: redactLine_exampleSecretLine)
  from ApplyPlan_single_secret[OF assms(1) assms(3)[unfolded assms(2)] this[unfolded assms(2)], of ms]
  show "ApplyPlan repoDir \<lparr>Actions = [a], Manual = ms\<rparr> fs =
              (None, \<lparr>Applied = [a], ResManual = ms\<rparr>,
               fs\<lparr>node := (node fs)(target :=
                     File (Join LF ((fileLines s)[nat (ActLineStart a - 1) := redactedLine])))\<rparr>)"
    by (simp add: assms(2))
next
  show "\<not> Contains redactedLine ''supersecretvalue''"
    by (rule redactedLine_no_secret)
next
  assume h: "(s = name @ blanks @ v \<or> s = (name @ blanks @ v) @ [LF]) \<and>
          set name \<subseteq> set nameChars \<and> list_all isBlank blanks \<and>
          set v \<subseteq> set valueChars \<and> length v < 12"
  have "redactSecretLine fs target (ActLineStart a) = Inr (False, fs)"
    using h assms(4) by (intro redactSecretLine_short_bare[of _ _ s name blanks v]) simp_all
  from ApplyPlan_single_secret[OF assms(1) assms(3)[unfolded assms(2)] this[unfolded assms(2)], of ms]
  show "ApplyPlan repoDir \<lparr>Actions = [a], Manual = ms\<rparr> fs =
              (None,
               \<lparr>Applied = [],
                  ResManual = ms @ [manualFor ''manual fix required: no safe redaction match found'' a]\<rparr>,
               fs)"
    by simp
qed

theorem redaction_examples_witness:
  "ApplyPlan ''/w/repo'' \<lparr>Actions = [secretAction ''app.env'' 1], Manual = []\<rparr>
     (oneFile ''/w/repo/app.env'' (exampleSecretLine @ [LF])) =
     (None, \<lparr>Applied = [secretAction ''app.env'' 1], ResManual = []\<rparr>,
      oneFile ''/w/repo/app.env'' (redactedLine @ [LF])) \<and>
   ApplyPlan ''/w/repo'' \<lparr>Actions = [secretAction ''app.env'' 1], Manual = []\<rparr>
     (oneFile ''/w/repo/app.env'' (''API_TOKEN'' @ '' '' @ ''shortvalue'')) =
     (None,
      \<lparr>Applied = [],
         ResManual = [manualFor ''manual fix required: no safe redaction match found''
                        (secretAction ''app.env'' 1)]\<rparr>,
      oneFile ''/w/repo/app.env'' (''API_TOKEN'' @ '' '' @ ''shortvalue''))"
proof -
  let ?a = "secretAction ''app.env'' 1"
  have ty: "Type ?a = FixSecretRedaction" by (simp add: secretAction_def)
  have tg: "''/w/repo/app.env'' = Join2 (Clean ''/w/repo'') (Clean (ActFilePath ?a))"
    by (simp add: secretAction_def Clean_w_repo target_app_env)
  have ne: "\<not> escapesRoot (Clean ''/w/repo'') ''/w/repo/app.env''"
    by (simp add: Clean_w_repo not_escapes_app_env)
  have n1: "node (oneFile ''/w/repo/app.env'' (exampleSecretLine @ [LF])) ''/w/repo/app.env'' =
            File (exampleSecretLine @ [LF])"
    by (simp add: oneFile_def)
  have n2: "node (oneFile ''/w/repo/app.env'' (''API_TOKEN'' @ '' '' @ ''shortvalue'')) ''/w/repo/app.env'' =
            File (''API_TOKEN'' @ '' '' @ ''shortvalue'')"
    by (simp add: oneFile_def)
  have nm: "set ''API_TOKEN'' \<subseteq> set nameChars"
    by (simp add: nameChars_def uppers_def)
  have bl: "list_all isBlank '' ''"
    by (simp add: isBlank_def)
  have sv: "set ''shortvalue'' \<subseteq> set valueChars"
    by (simp add: valueChars_def lowers_def)
  have l1: "ActLineStart ?a = 1" by (simp add: secretAction_def)
  have p1: "\<not> unwritable (oneFile ''/w/repo/app.env'' (exampleSecretLine @ [LF])) ''/w/repo/app.env'' \<and>
        0 < ActLineStart ?a \<and> ActLineStart ?a \<le> int (length (fileLines (exampleSecretLine @ [LF]))) \<and>
        fileLines (exampleSecretLine @ [LF]) ! nat (ActLineStart ?a - 1) = exampleSecretLine"
    by (simp add: oneFile_def l1 fileLines_example)
  have p2: "(''API_TOKEN'' @ '' '' @ ''shortvalue'' = ''API_TOKEN'' @ '' '' @ ''shortvalue'' \<or>
         ''API_TOKEN'' @ '' '' @ ''shortvalue'' = (''API_TOKEN'' @ '' '' @ ''shortvalue'') @ [LF]) \<and>
        set ''API_TOKEN'' \<subseteq> set nameChars \<and> list_all isBlank '' '' \<and>
        set ''shortvalue'' \<subseteq> set valueChars \<and> length ''shortvalue'' < 12"
    using sv nm bl by simp
  have upd: "(oneFile ''/w/repo/app.env'' (exampleSecretLine @ [LF]))
      \<lparr>node := (node (oneFile ''/w/repo/app.env'' (exampleSecretLine @ [LF])))
         (''/w/repo/app.env'' := File (Join LF ((fileLines (exampleSecretLine @ [LF]))
            [nat (ActLineStart ?a - 1) := redactedLine])))\<rparr> =
      oneFile ''/w/repo/app.env'' (redactedLine @ [LF])"
    by (simp add: oneFile_def l1 fileLines_example)
  from redaction_examples[OF ty tg ne n1, where ms = "[]" and v = "[]" and name = "[]"
      and blanks = "[]"] p1 upd
  have a1: "ApplyPlan ''/w/repo'' \<lparr>Actions = [?a], Manual = []\<rparr>
     (oneFile ''/w/repo/app.env'' (exampleSecretLine @ [LF])) =
     (None, \<lparr>Applied = [?a], ResManual = []\<rparr>,
      oneFile ''/w/repo/app.env'' (redactedLine @ [LF]))"
    by simp
  from redaction_examples[OF ty tg ne n2, where ms = "[]" and v = "''shortvalue''"
      and name = "''API_TOKEN''" and blanks = "'' ''", THEN conjunct2, THEN mp, OF p2]
  have a2: "ApplyPlan ''/w/repo'' \<lparr>Actions = [?a], Manual = []\<rparr>
     (oneFile ''/w/repo/app.env'' (''API_TOKEN'' @ '' '' @ ''shortvalue'')) =
     (None,
      \<lparr>Applied = [],
         ResManual = [manualFor ''manual fix required: no safe redaction match found'' ?a]\<rparr>,
      oneFile ''/w/repo/app.env'' (''API_TOKEN'' @ '' '' @ ''shortvalue''))"
    by simp
  from a1 a2 show ?thesis by (rule conjI)
qed

text \<open>
  C10. A successful \<open>redactSecretLine\<close> replaces one line of the file: the declared line
  when it is in range and matches the pattern, the first matching line otherwise. The
  file is written as the lines of the LF-normalised content joined with LF, so the new
  content differs from the normalised old content in that line only, and every CRLF of
  the old content has become LF, on the other lines as well.
\<close>

theorem redactSecretLine_rewrites_one_line:
  assumes "redactSecretLine fs path n = Inr (True, fs')"
  shows "\<exists>s i r.
           node fs path = File s \<and>
           i < length (fileLines s) \<and> redactLine (fileLines s ! i) = Some r \<and>
           (if 0 < n \<and> n \<le> int (length (fileLines s)) \<and>
               redactLine (fileLines s ! nat (n - 1)) \<noteq> None
            then i = nat (n - 1)
            else (\<forall>j<i. redactLine (fileLines s ! j) = None)) \<and>
           fs' = fs\<lparr>node := (node fs)(path := File (Join LF ((fileLines s)[i := r])))\<rparr> \<and>
           Split LF (Join LF ((fileLines s)[i := r])) = (fileLines s)[i := r] \<and>
           fileLines s = Split LF (ReplaceAll_CRLF s) \<and>
           (\<forall>a b. ReplaceAll_CRLF (a @ CR # LF # b) = ReplaceAll_CRLF a @ LF # ReplaceAll_CRLF b)"
proof -
  from assms obtain s where s: "node fs path = File s"
    by (cases "node fs path") (auto simp: redactSecretLine_def ReadFile_def split: if_splits)
  then have rd: "ReadFile fs path = Inr s" by (simp add: ReadFile_def)
  from assms rd obtain i r where ch: "chooseLine n (fileLines s) = Some (i, r)"
    by (cases "chooseLine n (fileLines s)") (auto simp: redactSecretLine_def)
  from assms rd ch have w: "WriteFile fs path (Join LF ((fileLines s)[i := r])) = Inr fs'"
    by (auto simp: redactSecretLine_def split: sum.splits)
  then have fs': "fs' = fs\<lparr>node := (node fs)(path := File (Join LF ((fileLines s)[i := r])))\<rparr>"
    by (auto simp: WriteFile_def split: if_splits)
  note c = chooseLine_Some[OF ch]
  have sj: "Split LF (Join LF ((fileLines s)[i := r])) = (fileLines s)[i := r]"
    using Split_Join_update c by blast
  have "node fs path = File s \<and>
        i < length (fileLines s) \<and> redactLine (fileLines s ! i) = Some r \<and>
        (if 0 < n \<and> n \<le> int (length (fileLines s)) \<and>
            redactLine (fileLines s ! nat (n - 1)) \<noteq> None
         then i = nat (n - 1)
         else (\<forall>j<i. redactLine (fileLines s ! j) = None)) \<and>
        fs' = fs\<lparr>node := (node fs)(path := File (Join LF ((fileLines s)[i := r])))\<rparr> \<and>
        Split LF (Join LF ((fileLines s)[i := r])) = (fileLines s)[i := r] \<and>
        fileLines s = Split LF (ReplaceAll_CRLF s) \<and>
        (\<forall>a b. ReplaceAll_CRLF (a @ CR # LF # b) = ReplaceAll_CRLF a @ LF # ReplaceAll_CRLF b)"
    using s c fs' sj ReplaceAll_CRLF_append fileLines_def by blast
  then show ?thesis by blast
qed

lemma fileLines_crlfFile: "fileLines crlfFile = [''keep'', exampleSecretLine, ''last'']"
  by code_simp

theorem redactSecretLine_rewrites_one_line_witness:
  "redactSecretLine (oneFile ''/w/repo/app.env'' crlfFile) ''/w/repo/app.env'' 2 =
     Inr (True, oneFile ''/w/repo/app.env''
                  (''keep'' @ [LF] @ redactedLine @ [LF] @ ''last'')) \<and>
   (\<exists>s i r.
      node (oneFile ''/w/repo/app.env'' crlfFile) ''/w/repo/app.env'' = File s \<and>
      i < length (fileLines s) \<and> redactLine (fileLines s ! i) = Some r \<and>
      (if 0 < (2::int) \<and> 2 \<le> int (length (fileLines s)) \<and>
          redactLine (fileLines s ! nat (2 - 1)) \<noteq> None
       then i = nat (2 - 1)
       else (\<forall>j<i. redactLine (fileLines s ! j) = None)) \<and>
      oneFile ''/w/repo/app.env'' (''keep'' @ [LF] @ redactedLine @ [LF] @ ''last'') =
        (oneFile ''/w/repo/app.env'' crlfFile)
          \<lparr>node := (node (oneFile ''/w/repo/app.env'' crlfFile))
             (''/w/repo/app.env'' := File (Join LF ((fileLines s)[i := r])))\<rparr> \<and>
      Split LF (Join LF ((fileLines s)[i := r])) = (fileLines s)[i := r] \<and>
      fileLines s = Split LF (ReplaceAll_CRLF s) \<and>
      (\<forall>a b. ReplaceAll_CRLF (a @ CR # LF # b) = ReplaceAll_CRLF a @ LF # ReplaceAll_CRLF b))"
proof -
  have "redactSecretLine (oneFile ''/w/repo/app.env'' crlfFile) ''/w/repo/app.env'' 2 =
        Inr (True, (oneFile ''/w/repo/app.env'' crlfFile)
          \<lparr>node := (node (oneFile ''/w/repo/app.env'' crlfFile))
             (''/w/repo/app.env'' :=
                File (Join LF ((fileLines crlfFile)[nat (2 - 1) := redactedLine])))\<rparr>)"
    by (rule redactSecretLine_declared)
       (simp_all add: oneFile_def fileLines_crlfFile redactLine_exampleSecretLine)
  then have h: "redactSecretLine (oneFile ''/w/repo/app.env'' crlfFile) ''/w/repo/app.env'' 2 =
     Inr (True, oneFile ''/w/repo/app.env''
                  (''keep'' @ [LF] @ redactedLine @ [LF] @ ''last''))"
    by (simp add: oneFile_def fileLines_crlfFile)
  from h redactSecretLine_rewrites_one_line[OF h] show ?thesis
    by (rule conjI)
qed

subsection \<open>Applying a plan twice\<close>

lemma fileLines_crcrlf: "fileLines (exampleSecretLine @ [CR, CR, LF]) = [exampleSecretLine @ [CR], []]"
  by code_simp

lemma redactLine_cr: "redactLine (exampleSecretLine @ [CR]) = Some (redactedLine @ [CR])"
  by code_simp

lemma fileLines_redacted_crlf: "fileLines (redactedLine @ [CR, LF]) = [redactedLine, []]"
  by code_simp

lemma redactLine_redactedLine: "redactLine redactedLine = Some redactedLine"
  by code_simp

text \<open>
  C4 does not hold for a file in which a CR stands before a CRLF. The first run replaces
  the CRLF by LF and leaves the CR before it, so the file it writes ends in CRLF; the
  action is applied and nothing is left for manual work. The second run rewrites the
  same line to the same text, but replaces that new CRLF by LF: the content changes.
\<close>

theorem ApplyPlan_twice_changes_file:
  "ApplyPlan ''/w/repo'' \<lparr>Actions = [secretAction ''app.env'' 1], Manual = []\<rparr>
     (oneFile ''/w/repo/app.env'' (exampleSecretLine @ [CR, CR, LF])) =
     (None, \<lparr>Applied = [secretAction ''app.env'' 1], ResManual = []\<rparr>,
      oneFile ''/w/repo/app.env'' (redactedLine @ [CR, LF])) \<and>
   ApplyPlan ''/w/repo'' \<lparr>Actions = [secretAction ''app.env'' 1], Manual = []\<rparr>
     (oneFile ''/w/repo/app.env'' (redactedLine @ [CR, LF])) =
     (None, \<lparr>Applied = [secretAction ''app.env'' 1], ResManual = []\<rparr>,
      oneFile ''/w/repo/app.env'' (redactedLine @ [LF])) \<and>
   redactedLine @ [CR, LF] \<noteq> redactedLine @ [LF]"
proof -
  let ?a = "secretAction ''app.env'' 1"
  let ?p = "''/w/repo/app.env''"
  have ty: "Type ?a = FixSecretRedaction" by (simp add: secretAction_def)
  have tg: "Join2 (Clean ''/w/repo'') (Clean (ActFilePath ?a)) = ?p"
    by (simp add: secretAction_def Clean_w_repo target_app_env)
  have ne: "\<not> escapesRoot (Clean ''/w/repo'') (Join2 (Clean ''/w/repo'') (Clean (ActFilePath ?a)))"
    by (subst tg, subst Clean_w_repo, rule not_escapes_app_env)
  have l1: "ActLineStart ?a = 1" by (simp add: secretAction_def)
  have r1: "redactSecretLine (oneFile ?p (exampleSecretLine @ [CR, CR, LF])) ?p 1 =
        Inr (True, (oneFile ?p (exampleSecretLine @ [CR, CR, LF]))
          \<lparr>node := (node (oneFile ?p (exampleSecretLine @ [CR, CR, LF])))
             (?p := File (Join LF ((fileLines (exampleSecretLine @ [CR, CR, LF]))
                                   [nat (1 - 1) := redactedLine @ [CR]])))\<rparr>)"
    by (rule redactSecretLine_declared) (simp_all add: oneFile_def fileLines_crcrlf redactLine_cr)
  then have r1': "redactSecretLine (oneFile ?p (exampleSecretLine @ [CR, CR, LF]))
        (Join2 (Clean ''/w/repo'') (Clean (ActFilePath ?a))) (ActLineStart ?a) =
        Inr (True, oneFile ?p (redactedLine @ [CR, LF]))"
    by (simp add: tg l1 oneFile_def fileLines_crcrlf)
  have r2: "redactSecretLine (oneFile ?p (redactedLine @ [CR, LF])) ?p 1 =
        Inr (True, (oneFile ?p (redactedLine @ [CR, LF]))
          \<lparr>node := (node (oneFile ?p (redactedLine @ [CR, LF])))
             (?p := File (Join LF ((fileLines (redactedLine @ [CR, LF]))
                                   [nat (1 - 1) := redactedLine])))\<rparr>)"
    by (rule redactSecretLine_declared)
       (simp_all add: oneFile_def fileLines_redacted_crlf redactLine_redactedLine)
  then have r2': "redactSecretLine (oneFile ?p (redactedLine @ [CR, LF]))
        (Join2 (Clean ''/w/repo'') (Clean (ActFilePath ?a))) (ActLineStart ?a) =
        Inr (True, oneFile ?p (redactedLine @ [LF]))"
    by (simp add: tg l1 oneFile_def fileLines_redacted_crlf)
  from ApplyPlan_single_secret[OF ty ne r1', of "[]"] ApplyPlan_single_secret[OF ty ne r2', of "[]"]
  show ?thesis by simp
qed

subsection \<open>The root check\<close>

lemma Clean_dotdot: "Clean ''..'' = ''..''"
  by code_simp

lemma target_dotdot: "Join2 ''..'' (Clean ''../x'') = ''../../x''"
  by code_simp

lemma not_escapes_dotdot: "\<not> escapesRoot ''..'' ''../../x''"
  by code_simp

lemma fileLines_exampleSecretLine: "fileLines exampleSecretLine = [exampleSecretLine]"
  by code_simp







































text \<open>
  The condition on the root is needed. With the root \<open>..\<close> and the file path \<open>../x\<close> the
  target is \<open>../../x\<close>, in the parent of the root; it starts with \<open>../\<close>, so the check of
  line 121 lets it pass, and the file is rewritten.
\<close>

lemma dotdot_target_outside: "\<not> inside ''..'' ''../../x'' \<and> \<not> realRoot ''..''"
  by code_simp

lemma relative_root_not_contained:
  "ApplyPlan ''..'' \<lparr>Actions = [secretAction ''../x'' 1], Manual = []\<rparr>
     (oneFile ''../../x'' exampleSecretLine) =
     (None, \<lparr>Applied = [secretAction ''../x'' 1], ResManual = []\<rparr>,
      oneFile ''../../x'' redactedLine)"
proof -
  let ?a = "secretAction ''../x'' 1"
  let ?p = "''../../x''"
  have ty: "Type ?a = FixSecretRedaction" by (simp add: secretAction_def)
  have tg: "Join2 (Clean ''..'') (Clean (ActFilePath ?a)) = ?p"
    by (simp add: secretAction_def Clean_dotdot target_dotdot)
  have ne: "\<not> escapesRoot (Clean ''..'') (Join2 (Clean ''..'') (Clean (ActFilePath ?a)))"
    by (subst tg, subst Clean_dotdot, rule not_escapes_dotdot)
  have l1: "ActLineStart ?a = 1" by (simp add: secretAction_def)
  have r1: "redactSecretLine (oneFile ?p exampleSecretLine) ?p 1 =
        Inr (True, (oneFile ?p exampleSecretLine)
          \<lparr>node := (node (oneFile ?p exampleSecretLine))
             (?p := File (Join LF ((fileLines exampleSecretLine)[nat (1 - 1) := redactedLine])))\<rparr>)"
    by (rule redactSecretLine_declared)
       (simp_all add: oneFile_def fileLines_exampleSecretLine redactLine_exampleSecretLine)
  then have r1': "redactSecretLine (oneFile ?p exampleSecretLine)
        (Join2 (Clean ''..'') (Clean (ActFilePath ?a))) (ActLineStart ?a) =
        Inr (True, oneFile ?p redactedLine)"
    by (simp add: tg l1 oneFile_def fileLines_exampleSecretLine)
  from ApplyPlan_single_secret[OF ty ne r1', of "[]"]
  show ?thesis by simp
qed

section \<open>Properties of the authenticator\<close>



section \<open>Properties of the orchestrator\<close>

lemma keepsPrs_ret [intro!]: "keepsPrs (ret x)"
  by (simp add: keepsPrs_def ret_def)

lemma keepsPrs_fail [intro!]: "keepsPrs (fail e)"
  by (simp add: keepsPrs_def fail_def)

lemma keepsPrs_lift [intro!]: "keepsPrs (lift r)"
  by (simp add: keepsPrs_def lift_def)

lemma keepsPrs_check [intro!]: "keepsPrs (check r)"
  by (simp add: keepsPrs_def check_def)

lemma keepsPrs_emit [intro!]: "keepsPrs (emit ev)"
  by (simp add: keepsPrs_def emit_def)

lemma keepsPrs_bind [intro!]:
  "keepsPrs m \<Longrightarrow> (\<And>x. keepsPrs (f x)) \<Longrightarrow> keepsPrs (bind m f)"
  unfolding keepsPrs_def bind_def
proof
  fix s
  assume m: "\<forall>s. prs (snd (m s)) = prs s" and f: "\<And>x. \<forall>s. prs (snd (f x s)) = prs s"
  obtain r s' where ms: "m s = (r, s')" by (cases "m s")
  then have s': "prs s' = prs s" using m[rule_format, of s] by simp
  show "prs (snd (case m s of (Inl e, s') \<Rightarrow> (Inl e, s') | (Inr x, s') \<Rightarrow> f x s')) = prs s"
  proof (cases r)
    case (Inl e)
    then show ?thesis using ms s' by simp
  next
    case (Inr x)
    then show ?thesis using ms s' f[of x, rule_format, of s'] by simp
  qed
qed

lemma keepsPrs_if [intro!]:
  "(c \<Longrightarrow> keepsPrs a) \<Longrightarrow> (\<not> c \<Longrightarrow> keepsPrs b) \<Longrightarrow> keepsPrs (if c then a else b)"
  by simp

lemma keepsPrs_loadFindings [intro!]: "keepsPrs (loadFindings l repoID max0)"
  unfolding loadFindings_def Let_def by (intro keepsPrs_bind keepsPrs_emit keepsPrs_check keepsPrs_ret)

lemma keepsPrs_enforceSizeCap [intro!]: "keepsPrs (enforceSizeCap l n)"
  unfolding enforceSizeCap_def by (intro keepsPrs_if keepsPrs_fail keepsPrs_ret)

lemma keepsPrs_GenerateDryRunDiff [intro!]: "keepsPrs (GenerateDryRunDiff l fs findings n)"
proof -
  obtain e applied fs' where a: "ApplyPlan (cloneDir l) (BuildPlan findings n) fs = (e, applied, fs')"
    by (cases "ApplyPlan (cloneDir l) (BuildPlan findings n) fs") auto
  show ?thesis
    unfolding GenerateDryRunDiff_def Let_def a
    by (cases e) (auto intro!: keepsPrs_bind)
qed

lemma keepsPrs_NewFromEnv [intro!]: "keepsPrs (NewFromEnv p)"
  unfolding NewFromEnv_def Let_def
  by (intro keepsPrs_bind keepsPrs_emit keepsPrs_if keepsPrs_fail keepsPrs_ret)

lemma keepsPrs_fetchToken [intro!]: "keepsPrs (fetchToken p)"
  unfolding fetchToken_def
  by (intro keepsPrs_bind keepsPrs_emit keepsPrs_if keepsPrs_lift keepsPrs_ret)

lemma keepsPrs_case_prod [intro!]:
  "(\<And>a b. keepsPrs (f a b)) \<Longrightarrow> keepsPrs (case x of (a, b) \<Rightarrow> f a b)"
  by (cases x) simp

lemma keepsPrs_confirmSteps [intro!]: "keepsPrs (confirmSteps p req url diffText plan)"
  unfolding confirmSteps_def Let_def
  by (intro keepsPrs_bind keepsPrs_emit keepsPrs_if keepsPrs_lift keepsPrs_ret keepsPrs_check
        keepsPrs_NewFromEnv keepsPrs_fetchToken keepsPrs_case_prod)

lemma recordsOnce_fail [intro!]: "recordsOnce req (fail e)"
  by (simp add: recordsOnce_def fail_def)

lemma recordsOnce_if [intro!]:
  "(c \<Longrightarrow> recordsOnce req a) \<Longrightarrow> (\<not> c \<Longrightarrow> recordsOnce req b) \<Longrightarrow>
   recordsOnce req (if c then a else b)"
  by simp

lemma recordsOnce_case_prod [intro!]:
  "(\<And>a b. recordsOnce req (f a b)) \<Longrightarrow> recordsOnce req (case x of (a, b) \<Rightarrow> f a b)"
  by (cases x) simp

lemma recordsOnce_bind [intro!]:
  assumes m: "keepsPrs m" and f: "\<And>x. recordsOnce req (f x)"
  shows "recordsOnce req (bind m f)"
  unfolding recordsOnce_def
proof
  fix s
  obtain r s' where ms: "m s = (r, s')" by (cases "m s")
  then have s': "prs s' = prs s" using m by (auto simp: keepsPrs_def dest: spec[of _ s])
  show "case bind m f s of (Inl e, s') \<Rightarrow> prs s' = prs s
        | (Inr resp, s') \<Rightarrow> prs s' = prs s @ [rowOf req resp]"
  proof (cases r)
    case (Inl e)
    then show ?thesis using ms s' by (simp add: bind_def)
  next
    case (Inr x)
    have "bind m f s = f x s'" using ms Inr by (simp add: bind_def)
    then show ?thesis using f[of x, unfolded recordsOnce_def, rule_format, of s'] s'
      by (auto split: prod.splits sum.splits)
  qed
qed

lemma recordsOnce_deferred [intro!]:
  "recordsOnce req m \<Longrightarrow> recordsOnce req (deferred ev m)"
  unfolding recordsOnce_def deferred_def
proof
  fix s
  assume a: "\<forall>s. case m s of (Inl e, s') \<Rightarrow> prs s' = prs s
                  | (Inr resp, s') \<Rightarrow> prs s' = prs s @ [rowOf req resp]"
  obtain r s' where ms: "m s = (r, s')" by (cases "m s")
  show "case case m s of (r, s') \<Rightarrow> (r, s'\<lparr>trace := trace s' @ [ev]\<rparr>) of
        (Inl e, s') \<Rightarrow> prs s' = prs s
        | (Inr resp, s') \<Rightarrow> prs s' = prs s @ [rowOf req resp]"
    using a[rule_format, of s] ms by (cases r) simp_all
qed

lemma recordsOnce_recordPR:
  "recordsOnce req
     (bind (recordPR l req mode branch prURL diffText)
        (\<lambda>_. ret \<lparr>Mode = mode, Diff = diffText, PRURL = prURL, Branch = branch\<rparr>))"
  unfolding recordsOnce_def
proof
  fix s
  show "case bind (recordPR l req mode branch prURL diffText)
               (\<lambda>_. ret \<lparr>Mode = mode, Diff = diffText, PRURL = prURL, Branch = branch\<rparr>) s of
        (Inl e, s') \<Rightarrow> prs s' = prs s
        | (Inr resp, s') \<Rightarrow> prs s' = prs s @ [rowOf req resp]"
    by (cases "insertError l")
       (simp_all add: recordPR_def bind_def emit_def ret_def rowOf_def Let_def)
qed

lemma recordsOnce_Create: "recordsOnce req (Create l p req)"
  unfolding Create_def Let_def
  by (intro recordsOnce_bind recordsOnce_if recordsOnce_fail recordsOnce_deferred
        recordsOnce_case_prod recordsOnce_recordPR
        keepsPrs_bind keepsPrs_emit keepsPrs_lift keepsPrs_check keepsPrs_if keepsPrs_ret
        keepsPrs_loadFindings keepsPrs_enforceSizeCap keepsPrs_GenerateDryRunDiff
        keepsPrs_confirmSteps)


lemma quiet_ret [intro!]: "quiet (ret x)"
  by (simp add: quiet_def ret_def)

lemma quiet_fail [intro!]: "quiet (fail e)"
  by (simp add: quiet_def fail_def)

lemma quiet_lift [intro!]: "quiet (lift r)"
  by (simp add: quiet_def lift_def)

lemma quiet_check [intro!]: "quiet (check r)"
  by (simp add: quiet_def check_def)

lemma quiet_emit: "\<not> providerEffect ev \<Longrightarrow> quiet (emit ev)"
  by (simp add: quiet_def emit_def)

lemma quiet_if [intro!]:
  "(c \<Longrightarrow> quiet a) \<Longrightarrow> (\<not> c \<Longrightarrow> quiet b) \<Longrightarrow> quiet (if c then a else b)"
  by simp

lemma quiet_case_prod [intro!]:
  "(\<And>a b. quiet (f a b)) \<Longrightarrow> quiet (case x of (a, b) \<Rightarrow> f a b)"
  by (cases x) simp

lemma quiet_bind [intro!]:
  assumes m: "quiet m" and f: "\<And>x. quiet (f x)"
  shows "quiet (bind m f)"
  unfolding quiet_def
proof
  fix s
  obtain r s' where ms: "m s = (r, s')" by (cases "m s")
  from m obtain t where t: "trace s' = trace s @ t" "\<not> list_ex providerEffect t"
    using ms by (auto simp: quiet_def dest: spec[of _ s])
  show "\<exists>t. trace (snd (bind m f s)) = trace s @ t \<and> \<not> list_ex providerEffect t"
  proof (cases r)
    case (Inl e)
    then show ?thesis using ms t by (simp add: bind_def)
  next
    case (Inr x)
    from f[of x] obtain u where
      u: "trace (snd (f x s')) = trace s' @ u" "\<not> list_ex providerEffect u"
      by (auto simp: quiet_def dest: spec[of _ s'])
    have "bind m f s = f x s'" using ms Inr by (simp add: bind_def)
    then have "trace (snd (bind m f s)) = trace s @ (t @ u)" using t u by simp
    moreover have "\<not> list_ex providerEffect (t @ u)" using t u by simp
    ultimately show ?thesis by blast
  qed
qed

lemma quiet_deferred:
  assumes "\<not> providerEffect ev" "quiet m"
  shows "quiet (deferred ev m)"
  unfolding quiet_def
proof
  fix s
  obtain r s' where ms: "m s = (r, s')" by (cases "m s")
  from assms(2) obtain t where t: "trace s' = trace s @ t" "\<not> list_ex providerEffect t"
    using ms by (auto simp: quiet_def dest: spec[of _ s])
  have "trace (snd (deferred ev m s)) = trace s @ (t @ [ev])"
    using ms t by (simp add: deferred_def)
  moreover have "\<not> list_ex providerEffect (t @ [ev])" using t assms(1) by simp
  ultimately show "\<exists>t. trace (snd (deferred ev m s)) = trace s @ t \<and> \<not> list_ex providerEffect t"
    by blast
qed

lemma quiet_loadFindings [intro!]: "quiet (loadFindings l repoID max0)"
  unfolding loadFindings_def Let_def
  by (intro quiet_bind quiet_emit quiet_check quiet_ret) simp

lemma quiet_enforceSizeCap [intro!]: "quiet (enforceSizeCap l n)"
  unfolding enforceSizeCap_def by (intro quiet_if quiet_fail quiet_ret)

lemma quiet_GenerateDryRunDiff [intro!]: "quiet (GenerateDryRunDiff l fs findings n)"
proof -
  obtain e applied fs' where a: "ApplyPlan (cloneDir l) (BuildPlan findings n) fs = (e, applied, fs')"
    by (cases "ApplyPlan (cloneDir l) (BuildPlan findings n) fs") auto
  show ?thesis
    unfolding GenerateDryRunDiff_def Let_def a
    by (cases e) (auto intro!: quiet_bind)
qed

lemma quiet_recordPR [intro!]: "quiet (recordPR l req mode branch prURL diffText)"
proof -
  have "quiet (\<lambda>s. case insertError l of Some e \<Rightarrow> (Inl e, s)
                    | None \<Rightarrow> (Inr (), s\<lparr>prs := prs s @ [row]\<rparr>))" for row
    by (cases "insertError l") (simp_all add: quiet_def)
  then show ?thesis
    unfolding recordPR_def Let_def by (intro quiet_bind quiet_emit) simp_all
qed

lemma yields_ret: "Q x \<Longrightarrow> yields Q (ret x)"
  by (simp add: yields_def ret_def)

lemma yields_fail [intro!]: "yields Q (fail e)"
  by (simp add: yields_def fail_def)

lemma yields_if [intro!]:
  "(c \<Longrightarrow> yields Q a) \<Longrightarrow> (\<not> c \<Longrightarrow> yields Q b) \<Longrightarrow> yields Q (if c then a else b)"
  by simp

lemma yields_case_prod [intro!]:
  "(\<And>a b. yields Q (f a b)) \<Longrightarrow> yields Q (case x of (a, b) \<Rightarrow> f a b)"
  by (cases x) simp

lemma yields_bind [intro!]:
  assumes "\<And>x. yields Q (f x)"
  shows "yields Q (bind m f)"
  unfolding yields_def
proof
  fix s
  obtain r s' where ms: "m s = (r, s')" by (cases "m s")
  show "case bind m f s of (Inl e, s') \<Rightarrow> True | (Inr x, s') \<Rightarrow> Q x"
  proof (cases r)
    case (Inl e)
    then show ?thesis using ms by (simp add: bind_def)
  next
    case (Inr x)
    have "bind m f s = f x s'" using ms Inr by (simp add: bind_def)
    then show ?thesis using assms[of x, unfolded yields_def, rule_format, of s'] by simp
  qed
qed

lemma yields_deferred [intro!]: "yields Q m \<Longrightarrow> yields Q (deferred ev m)"
  unfolding yields_def deferred_def
proof
  fix s
  assume a: "\<forall>s. case m s of (Inl e, s') \<Rightarrow> True | (Inr x, s') \<Rightarrow> Q x"
  obtain r s' where ms: "m s = (r, s')" by (cases "m s")
  show "case case m s of (r, s') \<Rightarrow> (r, s'\<lparr>trace := trace s' @ [ev]\<rparr>) of
        (Inl e, s') \<Rightarrow> True | (Inr x, s') \<Rightarrow> Q x"
    using a[rule_format, of s] ms by (cases r) simp_all
qed

lemma bind_ret: "bind (ret x) f = f x"
  by (simp add: bind_def ret_def)

lemma Create_provider_free: "\<not> Confirm req \<Longrightarrow> Create l p req = Create l p' req"
  by (simp add: Create_def Let_def cong: if_cong)

lemma quiet_Create: "\<not> Confirm req \<Longrightarrow> quiet (Create l p req)"
  unfolding Create_def Let_def
  by (intro quiet_bind quiet_if quiet_fail quiet_lift quiet_check quiet_ret quiet_case_prod
        quiet_loadFindings quiet_enforceSizeCap quiet_GenerateDryRunDiff quiet_recordPR
        quiet_deferred quiet_emit)
     simp_all

lemma yields_Create: "\<not> Confirm req \<Longrightarrow> yields isDryRun (Create l p req)"
  apply (simp add: Create_def Let_def bind_ret split_def cong: if_cong)
  apply (intro yields_bind yields_if yields_fail yields_deferred)
   apply (simp_all add: yields_ret isDryRun_def)
  done

subsection \<open>Examples\<close>

lemma Create_dry_example:
  "Create (exampleLocal (Inr (oneFile ''/w/repo/app.env'' (exampleSecretLine @ [LF]))))
     noProvider dryRequest emptyState =
   (Inr dryResponse,
    \<lparr>prs = [dryRow],
     trace = [QueryRepo ''r1'', QueryFindings ''r1'' 5, MkdirAll,
              GitClone ''https://github.com/acme/app.git'', InsertPR dryRow, RemoveAll]\<rparr>)"
  by code_simp

text \<open>
  C7. A request with \<open>Confirm = false\<close> that completes returns the mode \<open>dry-run\<close> with
  an empty PR URL and an empty branch; between its start and its end \<open>Create\<close> reads no
  credential from the environment, exchanges no token and calls neither the provider
  nor \<open>git push\<close>; and it returns the same response and leaves the same state whatever
  the environment and the provider are.
\<close>

theorem Create_dry_run:
  assumes "\<not> Confirm req" and "Create l p req s = (Inr resp, s')"
  shows "Mode resp = ''dry-run'' \<and> PRURL resp = [] \<and> Branch resp = [] \<and>
         (\<exists>t. trace s' = trace s @ t \<and> \<not> list_ex providerEffect t) \<and>
         (\<forall>p'. Create l p' req s = (Inr resp, s'))"
proof -
  have "isDryRun resp"
    using yields_Create[OF assms(1), of l p, unfolded yields_def, rule_format, of s] assms(2)
    by simp
  moreover have "\<exists>t. trace s' = trace s @ t \<and> \<not> list_ex providerEffect t"
    using quiet_Create[OF assms(1), of l p, unfolded quiet_def, rule_format, of s] assms(2)
    by simp
  moreover have "\<forall>p'. Create l p' req s = (Inr resp, s')"
    using Create_provider_free[OF assms(1), of l] assms(2) by metis
  ultimately show ?thesis by (simp add: isDryRun_def)
qed

theorem Create_dry_run_witness:
  "\<not> Confirm dryRequest \<and>
   Create (exampleLocal (Inr (oneFile ''/w/repo/app.env'' (exampleSecretLine @ [LF]))))
     noProvider dryRequest emptyState =
   (Inr dryResponse,
    \<lparr>prs = [dryRow],
     trace = [QueryRepo ''r1'', QueryFindings ''r1'' 5, MkdirAll,
              GitClone ''https://github.com/acme/app.git'', InsertPR dryRow, RemoveAll]\<rparr>) \<and>
   (Mode dryResponse = ''dry-run'' \<and> PRURL dryResponse = [] \<and> Branch dryResponse = [] \<and>
    (\<exists>t. trace \<lparr>prs = [dryRow],
               trace = [QueryRepo ''r1'', QueryFindings ''r1'' 5, MkdirAll,
                        GitClone ''https://github.com/acme/app.git'', InsertPR dryRow,
                        RemoveAll]\<rparr> = trace emptyState @ t \<and>
         \<not> list_ex providerEffect t) \<and>
    (\<forall>p'. Create (exampleLocal (Inr (oneFile ''/w/repo/app.env'' (exampleSecretLine @ [LF]))))
            p' dryRequest emptyState =
          (Inr dryResponse,
           \<lparr>prs = [dryRow],
            trace = [QueryRepo ''r1'', QueryFindings ''r1'' 5, MkdirAll,
                     GitClone ''https://github.com/acme/app.git'', InsertPR dryRow,
                     RemoveAll]\<rparr>)))"
proof -
  have h1: "\<not> Confirm dryRequest" by (simp add: dryRequest_def)
  note h2 = Create_dry_example
  show ?thesis
    by (rule conjI[OF h1 conjI[OF h2 Create_dry_run[OF h1 h2]]])
qed

text \<open>
  C1, as stated, fails: every failure path of \<open>Create\<close> returns before \<open>recordPR\<close> is
  called. Here the clone fails; the request ends with the error and table \<open>prs\<close> is
  still empty.
\<close>

theorem Create_failure_records_nothing:
  "Create (exampleLocal (Inl (Err ''git clone failed''))) noProvider dryRequest emptyState =
   (Inl (Err ''git clone failed''),
    \<lparr>prs = [],
     trace = [QueryRepo ''r1'', QueryFindings ''r1'' 5, MkdirAll,
              GitClone ''https://github.com/acme/app.git'', RemoveAll]\<rparr>)"
  by code_simp

text \<open>
  C1, amended. \<open>Create\<close> persists exactly one row for a request that it answers with a
  response, dry-run or created: the row holds the mode as status, the branch and the
  PR URL (\<open>NULL\<close> when empty) and the diff text of the response. On every path on which
  \<open>Create\<close> returns an error it persists no row.
\<close>

theorem Create_records_on_success_only:
  "Create l p req s = (r, s') \<Longrightarrow>
   (case r of
      Inr resp \<Rightarrow> prs s' = prs s @ [rowOf req resp]
    | Inl e \<Rightarrow> prs s' = prs s)"
  using recordsOnce_Create[of req l p, unfolded recordsOnce_def, rule_format, of s]
  by (auto split: sum.splits)

theorem Create_records_on_success_only_witness:
  "Create (exampleLocal (Inr (oneFile ''/w/repo/app.env'' (exampleSecretLine @ [LF]))))
     noProvider dryRequest emptyState =
   (Inr dryResponse,
    \<lparr>prs = [dryRow],
     trace = [QueryRepo ''r1'', QueryFindings ''r1'' 5, MkdirAll,
              GitClone ''https://github.com/acme/app.git'', InsertPR dryRow, RemoveAll]\<rparr>) \<and>
   prs \<lparr>prs = [dryRow],
        trace = [QueryRepo ''r1'', QueryFindings ''r1'' 5, MkdirAll,
                 GitClone ''https://github.com/acme/app.git'', InsertPR dryRow, RemoveAll]\<rparr> =
     prs emptyState @ [rowOf dryRequest dryResponse]"
proof -
  note h = Create_dry_example
  from Create_records_on_success_only[OF h]
  have "prs \<lparr>prs = [dryRow],
        trace = [QueryRepo ''r1'', QueryFindings ''r1'' 5, MkdirAll,
                 GitClone ''https://github.com/acme/app.git'', InsertPR dryRow, RemoveAll]\<rparr> =
     prs emptyState @ [rowOf dryRequest dryResponse]"
    by (simp only: sum.case)
  with h show ?thesis by (rule conjI)
qed

end
